theory Spec2Isabelle
  imports Complex_Main
begin

section \<open>MPTRAC trajectory engine (trac.c): data model\<close>

text \<open>
  The C program computes with \<open>double\<close>; the embedding computes with \<open>real\<close>, so rounding
  is not modelled and a cast to \<open>float\<close> is the identity. C \<open>int\<close> values (particle
  count, direction, quantity indices with the sentinel \<open>-1\<close>) are \<open>int\<close>. The arrays
  of \<open>atm_t\<close> indexed by the particle number are lists; the three-dimensional arrays
  indexed by a grid cell are functions of the index triple.

  Division, \<open>sqrt\<close>, \<open>log\<close> and \<open>powr\<close> are the total functions of HOL. Where the
  program can leave the real numbers or an array and a property below depends on it, the
  failure is a value of the model: the correlation of the mesoscale module is an
  \<open>option\<close> and the module lists the particles for which it is not real, and the accesses of \<open>module_meteo\<close> to the quantity array return an
  error outside the array.
\<close>

text \<open>Control parameters, \<open>ctl_t\<close>: the fields that trac.c reads.\<close>

record ctl_t =
  direction :: int
  t_start :: real
  t_stop :: real
  dt_mod :: real
  dt_met :: real
  met_dt_out :: real
  turb_dx_trop :: real
  turb_dx_strat :: real
  turb_dz_trop :: real
  turb_dz_strat :: real
  turb_mesox :: real
  turb_mesoz :: real
  tdec_trop :: real
  tdec_strat :: real
  psc_h2o :: real
  psc_hno3 :: real
  isosurf :: int
  qnt_m :: int
  qnt_r :: int
  qnt_rho :: int
  qnt_ps :: int
  qnt_pt :: int
  qnt_p :: int
  qnt_z :: int
  qnt_t :: int
  qnt_u :: int
  qnt_v :: int
  qnt_w :: int
  qnt_h2o :: int
  qnt_o3 :: int
  qnt_vh :: int
  qnt_vz :: int
  qnt_theta :: int
  qnt_pv :: int
  qnt_tice :: int
  qnt_tnat :: int
  qnt_tsts :: int

text \<open>Meteorological snapshot, \<open>met_t\<close>: the fields that trac.c reads.\<close>

record met_t =
  time :: real
  nx :: int
  ny :: int
  np :: int
  lon :: "real list"
  lat :: "real list"
  p :: "real list"
  u :: "int \<times> int \<times> int \<Rightarrow> real"
  v :: "int \<times> int \<times> int \<Rightarrow> real"
  w :: "int \<times> int \<times> int \<Rightarrow> real"

text \<open>
  Particle ensemble, \<open>atm_t\<close>. The unqualified names \<open>time\<close>, \<open>np\<close>, \<open>lon\<close>,
  \<open>lat\<close> and \<open>p\<close> denote the fields of \<open>atm_t\<close> from here on; those of a
  snapshot are written \<open>met_t.time\<close> and so on.
\<close>

record atm_t =
  np :: int
  time :: "real list"
  p :: "real list"
  lon :: "real list"
  lat :: "real list"
  q :: "real list list"
  up :: "real list"
  vp :: "real list"
  wp :: "real list"
  cache_time :: "int \<times> int \<times> int \<Rightarrow> real"
  cache_usig :: "int \<times> int \<times> int \<Rightarrow> real"
  cache_vsig :: "int \<times> int \<times> int \<Rightarrow> real"
  cache_wsig :: "int \<times> int \<times> int \<Rightarrow> real"
  iso_var :: "real list"
  iso_ts :: "real list"
  iso_ps :: "real list"
  iso_n :: int

text \<open>
  The values that \<open>intpol_met_time\<close> writes through its ten output pointers; a caller
  that passes \<open>NULL\<close> for an output ignores that field.
\<close>

record met_vals =
  iv_ps :: real
  iv_pt :: real
  iv_z :: real
  iv_t :: real
  iv_u :: real
  iv_v :: real
  iv_w :: real
  iv_pv :: real
  iv_h2o :: real
  iv_o3 :: real

text \<open>
  The functions, macros and constants of libtrac that trac.c calls and whose text is not
  part of trac.c are parameters of the model: every module takes a \<open>libtrac\<close> record.
  \<open>NP\<close> is the capacity of the particle arrays.
\<close>

record libtrac =
  intpol_met_time :: "met_t \<Rightarrow> met_t \<Rightarrow> real \<Rightarrow> real \<Rightarrow> real \<Rightarrow> real \<Rightarrow> met_vals"
  clim_tropo :: "real \<Rightarrow> real \<Rightarrow> real"
  clim_hno3 :: "real \<Rightarrow> real \<Rightarrow> real \<Rightarrow> real"
  locate_reg :: "real list \<Rightarrow> int \<Rightarrow> real \<Rightarrow> int"
  locate_irr :: "real list \<Rightarrow> int \<Rightarrow> real \<Rightarrow> int"
  stddev :: "real list \<Rightarrow> nat \<Rightarrow> real"
  DX2DEG :: "real \<Rightarrow> real \<Rightarrow> real"
  DY2DEG :: "real \<Rightarrow> real"
  DZ2DP :: "real \<Rightarrow> real \<Rightarrow> real"
  H0 :: real
  RA :: real
  KB :: real
  G0 :: real
  NP :: int

text \<open>
  Modelled from the spec: the macro \<open>LIN(x0, y0, x1, y1, x)\<close> of libtrac.h is not in
  trac.c; it is the linear interpolation through \<open>(x0, y0)\<close> and \<open>(x1, y1)\<close>.
  For \<open>x0 = x1\<close> the C expression divides by zero and is not a number; the theorems
  below use \<open>LIN\<close> only where \<open>x0 \<noteq> x1\<close>.
\<close>

definition LIN :: "real \<Rightarrow> real \<Rightarrow> real \<Rightarrow> real \<Rightarrow> real \<Rightarrow> real" where
  "LIN x0 y0 x1 y1 x = y0 + (y1 - y0) / (x1 - x0) * (x - x0)"

text \<open>
  Modelled from the spec: the macro \<open>FMOD(x, y)\<close> of libtrac.h is not in trac.c; it
  normalises \<open>x\<close> modulo \<open>y\<close> by removing the integer part of \<open>x / y\<close>, truncated
  towards zero as the C cast to \<open>int\<close> does (the range of \<open>int\<close> is not modelled).
\<close>

definition trunc_int :: "real \<Rightarrow> int" where
  "trunc_int x = (if 0 \<le> x then \<lfloor>x\<rfloor> else \<lceil>x\<rceil>)"

definition FMOD :: "real \<Rightarrow> real \<Rightarrow> real" where
  "FMOD x y = x - real_of_int (trunc_int (x / y)) * y"

text \<open>
  Modelled from the spec: the macro \<open>THETA(p, t)\<close> of libtrac.h is not in trac.c; it is
  the potential temperature, the formula that \<open>module_isosurf\<close> inverts in mode 3.
  The C function \<open>pow\<close> is \<open>powr\<close> on a positive base.
\<close>

definition THETA :: "real \<Rightarrow> real \<Rightarrow> real" where
  "THETA pr t = t * (1000 / pr) powr 0.286"

text \<open>
  The call of \<open>intpol_met_time\<close> at the position of particle \<open>ip\<close> with every output
  pointer but the temperature \<open>NULL\<close>.
\<close>

definition intpol_t :: "libtrac \<Rightarrow> met_t \<Rightarrow> met_t \<Rightarrow> atm_t \<Rightarrow> nat \<Rightarrow> real" where
  "intpol_t L met0 met1 atm ip =
     iv_t (intpol_met_time L met0 met1 (time atm ! ip) (p atm ! ip) (lon atm ! ip) (lat atm ! ip))"

section \<open>Time steps of the air parcels (main, lines 272-282)\<close>

text \<open>One iteration of the loop over \<open>ip\<close>: the only assignment is to \<open>dt[ip]\<close>.\<close>

definition set_dt_ip :: "ctl_t \<Rightarrow> atm_t \<Rightarrow> real \<Rightarrow> nat \<Rightarrow> real list \<Rightarrow> real list" where
  "set_dt_ip ctl atm t ip dt =
     (let atmtime = time atm ! ip;
          tstart = t_start ctl;
          tstop = t_stop ctl;
          dir = direction ctl
      in if real_of_int dir * (atmtime - tstart) \<ge> 0
            \<and> real_of_int dir * (atmtime - tstop) \<le> 0
            \<and> real_of_int dir * (atmtime - t) < 0
         then dt[ip := t - atmtime]
         else dt[ip := 0])"

definition set_time_steps :: "ctl_t \<Rightarrow> atm_t \<Rightarrow> real \<Rightarrow> real list \<Rightarrow> real list" where
  "set_time_steps ctl atm t dt = fold (set_dt_ip ctl atm t) [0..<nat (np atm)] dt"

section \<open>Advection (module_advection)\<close>

definition advection_ip :: "libtrac \<Rightarrow> met_t \<Rightarrow> met_t \<Rightarrow> real list \<Rightarrow> nat \<Rightarrow> atm_t \<Rightarrow> atm_t" where
  "advection_ip L met0 met1 dt ip atm =
     (if dt ! ip \<noteq> 0 then
        let m0 = intpol_met_time L met0 met1 (time atm ! ip) (p atm ! ip)
                   (lon atm ! ip) (lat atm ! ip);
            xm0 = lon atm ! ip + DX2DEG L (0.5 * dt ! ip * iv_u m0 / 1000) (lat atm ! ip);
            xm1 = lat atm ! ip + DY2DEG L (0.5 * dt ! ip * iv_v m0 / 1000);
            xm2 = p atm ! ip + 0.5 * dt ! ip * iv_w m0;
            m1 = intpol_met_time L met0 met1 (time atm ! ip + 0.5 * dt ! ip) xm2 xm0 xm1
        in atm\<lparr>time := (time atm)[ip := time atm ! ip + dt ! ip],
               lon := (lon atm)[ip := lon atm ! ip + DX2DEG L (dt ! ip * iv_u m1 / 1000) xm1],
               lat := (lat atm)[ip := lat atm ! ip + DY2DEG L (dt ! ip * iv_v m1 / 1000)],
               p := (p atm)[ip := p atm ! ip + dt ! ip * iv_w m1]\<rparr>
      else atm)"

definition module_advection :: "libtrac \<Rightarrow> met_t \<Rightarrow> met_t \<Rightarrow> atm_t \<Rightarrow> real list \<Rightarrow> atm_t" where
  "module_advection L met0 met1 atm dt =
     fold (advection_ip L met0 met1 dt) [0..<nat (np atm)] atm"

section \<open>Tropopause-relative weight (module_decay 477-485, module_diffusion_turb 690-698)\<close>

text \<open>
  Both modules compute the weighting factor with the same statements; \<open>pt\<close> is the
  tropopause pressure and \<open>pr\<close> the pressure of the air parcel.
\<close>

definition tropo_weight :: "real \<Rightarrow> real \<Rightarrow> real" where
  "tropo_weight pt pr =
     (let p1 = pt * 0.866877899;
          p0 = pt / 0.866877899
      in if pr > p0 then 1
         else if pr < p1 then 0
         else LIN p0 1 p1 0 pr)"

section \<open>Exponential decay (module_decay)\<close>

text \<open>\<open>main\<close> calls the module only when \<open>qnt_m \<ge> 0\<close>, so the row index is a \<open>nat\<close>.\<close>

definition decay_ip :: "libtrac \<Rightarrow> ctl_t \<Rightarrow> real list \<Rightarrow> nat \<Rightarrow> atm_t \<Rightarrow> atm_t" where
  "decay_ip L ctl dt ip atm =
     (if dt ! ip \<noteq> 0 then
        let pt = clim_tropo L (time atm ! ip) (lat atm ! ip);
            wgt = tropo_weight pt (p atm ! ip);
            tdec = wgt * tdec_trop ctl + (1 - wgt) * tdec_strat ctl;
            iq = nat (qnt_m ctl)
        in atm\<lparr>q := (q atm)[iq := (q atm ! iq)[ip := q atm ! iq ! ip * exp (- dt ! ip / tdec)]]\<rparr>
      else atm)"

text \<open>The factor \<open>exp(-dt[ip] / tdec)\<close> of lines 474-491, from the state before the loop.\<close>

definition decay_factor :: "libtrac \<Rightarrow> ctl_t \<Rightarrow> atm_t \<Rightarrow> real list \<Rightarrow> nat \<Rightarrow> real" where
  "decay_factor L ctl atm dt ip =
     exp (- dt ! ip /
       (tropo_weight (clim_tropo L (time atm ! ip) (lat atm ! ip)) (p atm ! ip) * tdec_trop ctl
        + (1 - tropo_weight (clim_tropo L (time atm ! ip) (lat atm ! ip)) (p atm ! ip))
          * tdec_strat ctl))"

definition module_decay :: "libtrac \<Rightarrow> ctl_t \<Rightarrow> atm_t \<Rightarrow> real list \<Rightarrow> atm_t" where
  "module_decay L ctl atm dt = fold (decay_ip L ctl dt) [0..<nat (np atm)] atm"

section \<open>Turbulent diffusion (module_diffusion_turb)\<close>

text \<open>\<open>rs\<close> holds the standard-normal variates drawn by \<open>module_diffusion_rng\<close>.\<close>

definition turb_ip :: "libtrac \<Rightarrow> ctl_t \<Rightarrow> real list \<Rightarrow> real list \<Rightarrow> nat \<Rightarrow> atm_t \<Rightarrow> atm_t" where
  "turb_ip L ctl dt rs ip atm =
     (if dt ! ip \<noteq> 0 then
        let pt = clim_tropo L (time atm ! ip) (lat atm ! ip);
            wgt = tropo_weight pt (p atm ! ip);
            dx = wgt * turb_dx_trop ctl + (1 - wgt) * turb_dx_strat ctl;
            dz = wgt * turb_dz_trop ctl + (1 - wgt) * turb_dz_strat ctl;
            atm1 = (if dx > 0 then
                      let sigma = sqrt (2 * dx * \<bar>dt ! ip\<bar>);
                          a = atm\<lparr>lon := (lon atm)[ip := lon atm ! ip
                                  + DX2DEG L (rs ! (3 * ip) * sigma / 1000) (lat atm ! ip)]\<rparr>
                      in a\<lparr>lat := (lat a)[ip := lat a ! ip
                                  + DY2DEG L (rs ! (3 * ip + 1) * sigma / 1000)]\<rparr>
                    else atm)
        in (if dz > 0 then
              let sigma = sqrt (2 * dz * \<bar>dt ! ip\<bar>)
              in atm1\<lparr>p := (p atm1)[ip := p atm1 ! ip
                        + DZ2DP L (rs ! (3 * ip + 2) * sigma / 1000) (p atm1 ! ip)]\<rparr>
            else atm1)
      else atm)"

definition module_diffusion_turb :: "libtrac \<Rightarrow> ctl_t \<Rightarrow> atm_t \<Rightarrow> real list \<Rightarrow> real list \<Rightarrow> atm_t" where
  "module_diffusion_turb L ctl atm dt rs = fold (turb_ip L ctl dt rs) [0..<nat (np atm)] atm"

section \<open>Mesoscale diffusion (module_diffusion_meso)\<close>

text \<open>The sixteen corner values of one wind component, in the order of lines 552-605.\<close>

definition corners :: "(int \<times> int \<times> int \<Rightarrow> real) \<Rightarrow> (int \<times> int \<times> int \<Rightarrow> real)
    \<Rightarrow> int \<Rightarrow> int \<Rightarrow> int \<Rightarrow> real list" where
  "corners f0 f1 ix iy iz =
     [f0 (ix, iy, iz), f0 (ix + 1, iy, iz), f0 (ix, iy + 1, iz), f0 (ix + 1, iy + 1, iz),
      f0 (ix, iy, iz + 1), f0 (ix + 1, iy, iz + 1), f0 (ix, iy + 1, iz + 1),
      f0 (ix + 1, iy + 1, iz + 1),
      f1 (ix, iy, iz), f1 (ix + 1, iy, iz), f1 (ix, iy + 1, iz), f1 (ix + 1, iy + 1, iz),
      f1 (ix, iy, iz + 1), f1 (ix + 1, iy, iz + 1), f1 (ix, iy + 1, iz + 1),
      f1 (ix + 1, iy + 1, iz + 1)]"

text \<open>
  Lines 615-616, the temporal correlation \<open>r\<close> and \<open>r2 = sqrt(1 - r * r)\<close>. In C the
  quotient by \<open>dt_met = 0\<close> is infinite and the square root of a negative number is NaN;
  the model returns \<open>None\<close> where the pair is not a pair of real numbers.
\<close>

definition meso_corr :: "real \<Rightarrow> real \<Rightarrow> (real \<times> real) option" where
  "meso_corr dti dtmet =
     (if dtmet = 0 then None
      else let r = 1 - 2 * \<bar>dti\<bar> / dtmet
           in if 1 - r * r < 0 then None else Some (r, sqrt (1 - r * r)))"

definition meso_cache :: "libtrac \<Rightarrow> met_t \<Rightarrow> met_t \<Rightarrow> int \<Rightarrow> int \<Rightarrow> int \<Rightarrow> atm_t \<Rightarrow> atm_t" where
  "meso_cache L met0 met1 ix iy iz atm =
     (if cache_time atm (ix, iy, iz) \<noteq> met_t.time met0 then
        atm\<lparr>cache_usig := (cache_usig atm)
                 ((ix, iy, iz) := stddev L (corners (met_t.u met0) (met_t.u met1) ix iy iz) 16),
             cache_vsig := (cache_vsig atm)
                 ((ix, iy, iz) := stddev L (corners (met_t.v met0) (met_t.v met1) ix iy iz) 16),
             cache_wsig := (cache_wsig atm)
                 ((ix, iy, iz) := stddev L (corners (met_t.w met0) (met_t.w met1) ix iy iz) 16),
             cache_time := (cache_time atm)((ix, iy, iz) := met_t.time met0)\<rparr>
      else atm)"

definition meso_horiz :: "libtrac \<Rightarrow> ctl_t \<Rightarrow> real list \<Rightarrow> real list \<Rightarrow> nat
    \<Rightarrow> int \<times> int \<times> int \<Rightarrow> real \<Rightarrow> real \<Rightarrow> atm_t \<Rightarrow> atm_t" where
  "meso_horiz L ctl dt rs ip cell r r2 atm =
     (let a1 = atm\<lparr>up := (up atm)[ip := r * up atm ! ip
                     + r2 * rs ! (3 * ip) * turb_mesox ctl * cache_usig atm cell]\<rparr>;
          a2 = a1\<lparr>lon := (lon a1)[ip := lon a1 ! ip
                     + DX2DEG L (up a1 ! ip * dt ! ip / 1000) (lat a1 ! ip)]\<rparr>;
          a3 = a2\<lparr>vp := (vp a2)[ip := r * vp a2 ! ip
                     + r2 * rs ! (3 * ip + 1) * turb_mesox ctl * cache_vsig a2 cell]\<rparr>
      in a3\<lparr>lat := (lat a3)[ip := lat a3 ! ip + DY2DEG L (vp a3 ! ip * dt ! ip / 1000)]\<rparr>)"

definition meso_vert :: "ctl_t \<Rightarrow> real list \<Rightarrow> real list \<Rightarrow> nat
    \<Rightarrow> int \<times> int \<times> int \<Rightarrow> real \<Rightarrow> real \<Rightarrow> atm_t \<Rightarrow> atm_t" where
  "meso_vert ctl dt rs ip cell r r2 atm =
     (let a1 = atm\<lparr>wp := (wp atm)[ip := r * wp atm ! ip
                     + r2 * rs ! (3 * ip + 2) * turb_mesoz ctl * cache_wsig atm cell]\<rparr>
      in a1\<lparr>p := (p a1)[ip := p a1 ! ip + wp a1 ! ip * dt ! ip]\<rparr>)"

text \<open>
  The body of the loop, lines 539-640, for particle \<open>ip\<close>. The result is the new state
  and whether the correlation of lines 615-616 is real (also when the body is skipped).
  When it is not real the code goes on: what lines 620-638 store for this particle under a
  positive coefficient is computed from NaN and is no real number, so the model stores
  nothing for the particle beyond the cache and reports it; with both coefficients zero
  the code itself stores nothing but the cache.
\<close>

definition meso_ip :: "libtrac \<Rightarrow> ctl_t \<Rightarrow> met_t \<Rightarrow> met_t \<Rightarrow> real list \<Rightarrow> real list \<Rightarrow> nat
    \<Rightarrow> atm_t \<Rightarrow> atm_t \<times> bool" where
  "meso_ip L ctl met0 met1 dt rs ip atm =
     (if dt ! ip \<noteq> 0 then
        let ix = locate_reg L (met_t.lon met0) (met_t.nx met0) (lon atm ! ip);
            iy = locate_reg L (met_t.lat met0) (met_t.ny met0) (lat atm ! ip);
            iz = locate_irr L (met_t.p met0) (met_t.np met0) (p atm ! ip);
            a0 = meso_cache L met0 met1 ix iy iz atm
        in (case meso_corr (dt ! ip) (dt_met ctl) of
              None \<Rightarrow> (a0, False)
            | Some (r, r2) \<Rightarrow>
                let a1 = (if turb_mesox ctl > 0
                          then meso_horiz L ctl dt rs ip (ix, iy, iz) r r2 a0 else a0)
                in (if turb_mesoz ctl > 0
                    then meso_vert ctl dt rs ip (ix, iy, iz) r r2 a1 else a1, True))
      else (atm, True))"

text \<open>
  One iteration of the loop over the particles: the state goes on to the next particle in
  every case, and a particle whose correlation is not real is added to the list.
\<close>

definition meso_step :: "libtrac \<Rightarrow> ctl_t \<Rightarrow> met_t \<Rightarrow> met_t \<Rightarrow> real list \<Rightarrow> real list \<Rightarrow> nat
    \<Rightarrow> atm_t \<times> nat list \<Rightarrow> atm_t \<times> nat list" where
  "meso_step L ctl met0 met1 dt rs ip s =
     (let res = meso_ip L ctl met0 met1 dt rs ip (fst s)
      in (fst res, if snd res then snd s else snd s @ [ip]))"

text \<open>
  The module returns the ensemble after the loop and the particles whose correlation is
  not real, in the order of the loop.
\<close>

definition module_diffusion_meso :: "libtrac \<Rightarrow> ctl_t \<Rightarrow> met_t \<Rightarrow> met_t \<Rightarrow> atm_t
    \<Rightarrow> real list \<Rightarrow> real list \<Rightarrow> atm_t \<times> nat list" where
  "module_diffusion_meso L ctl met0 met1 atm dt rs =
     fold (meso_step L ctl met0 met1 dt rs) [0..<nat (np atm)] (atm, [])"

section \<open>Sedimentation (module_sedi)\<close>

text \<open>\<open>main\<close> calls the module only when \<open>qnt_r \<ge> 0\<close> and \<open>qnt_rho \<ge> 0\<close>.\<close>

definition sedi_ip :: "libtrac \<Rightarrow> ctl_t \<Rightarrow> met_t \<Rightarrow> met_t \<Rightarrow> real list \<Rightarrow> nat \<Rightarrow> atm_t \<Rightarrow> atm_t" where
  "sedi_ip L ctl met0 met1 dt ip atm =
     (if dt ! ip \<noteq> 0 then
        let A = 1.249; B = 0.42; C = 0.87;
            m = 4.8096 / 10 ^ 26;
            pa = 100 * p atm ! ip;
            r_p = q atm ! nat (qnt_r ctl) ! ip / 10 ^ 6;
            rho_p = q atm ! nat (qnt_rho ctl) ! ip;
            T = intpol_t L met0 met1 atm ip;
            rho = pa / (RA L * T);
            eta = 1.8325 / 10 ^ 5 * (416.16 / (T + 120)) * (T / 296.16) powr 1.5;
            vel = sqrt (8 * KB L * T / (pi * m));
            lambda = 2 * eta / (rho * vel);
            K = lambda / r_p;
            G = 1 + K * (A + B * exp (- C / K));
            v_p = 2 * (r_p * r_p) * (rho_p - rho) * G0 L / (9 * eta) * G
        in atm\<lparr>p := (p atm)[ip := p atm ! ip + DZ2DP L (v_p * dt ! ip / 1000) (p atm ! ip)]\<rparr>
      else atm)"

definition module_sedi :: "libtrac \<Rightarrow> ctl_t \<Rightarrow> met_t \<Rightarrow> met_t \<Rightarrow> atm_t \<Rightarrow> real list \<Rightarrow> atm_t" where
  "module_sedi L ctl met0 met1 atm dt = fold (sedi_ip L ctl met0 met1 dt) [0..<nat (np atm)] atm"

section \<open>Isosurface module (module_isosurf_init, module_isosurf)\<close>

text \<open>
  The fatal errors raised with \<open>ERRMSG\<close> in the isosurface module, and the read of a
  quantity row outside its bounds, are values of the model.
\<close>

datatype error =
    Cannot_open_file
  | Too_many_data_points
  | Could_not_read_any_data
  | Index_out_of_bounds int

text \<open>
  The balloon file is \<open>None\<close> when \<open>fopen\<close> fails; otherwise it is the list of its
  lines, each \<open>Some (t, p)\<close> when \<open>sscanf\<close> reads two numbers and \<open>None\<close> when not.
\<close>

type_synonym balloon_file = "(real \<times> real) option list option"

fun read_balloon :: "int \<Rightarrow> (real \<times> real) option list \<Rightarrow> atm_t \<Rightarrow> error + atm_t" where
  "read_balloon cap [] atm = Inr atm"
| "read_balloon cap (None # ls) atm = read_balloon cap ls atm"
| "read_balloon cap (Some (ts, ps) # ls) atm =
     (let a = atm\<lparr>iso_ts := (iso_ts atm)[nat (iso_n atm) := ts],
                  iso_ps := (iso_ps atm)[nat (iso_n atm) := ps],
                  iso_n := iso_n atm + 1\<rparr>
      in if iso_n a > cap then Inl Too_many_data_points else read_balloon cap ls a)"

definition isosurf_init_ip :: "libtrac \<Rightarrow> ctl_t \<Rightarrow> met_t \<Rightarrow> met_t \<Rightarrow> nat \<Rightarrow> atm_t \<Rightarrow> atm_t" where
  "isosurf_init_ip L ctl met0 met1 ip atm =
     (if isosurf ctl = 1 then atm\<lparr>iso_var := (iso_var atm)[ip := p atm ! ip]\<rparr>
      else if isosurf ctl = 2 then
        let t = intpol_t L met0 met1 atm ip
        in atm\<lparr>iso_var := (iso_var atm)[ip := p atm ! ip / t]\<rparr>
      else if isosurf ctl = 3 then
        let t = intpol_t L met0 met1 atm ip
        in atm\<lparr>iso_var := (iso_var atm)[ip := THETA (p atm ! ip) t]\<rparr>
      else atm)"

definition module_isosurf_init :: "libtrac \<Rightarrow> ctl_t \<Rightarrow> met_t \<Rightarrow> met_t \<Rightarrow> balloon_file
    \<Rightarrow> atm_t \<Rightarrow> error + atm_t" where
  "module_isosurf_init L ctl met0 met1 file atm =
     (if isosurf ctl = 1 \<or> isosurf ctl = 2 \<or> isosurf ctl = 3 then
        Inr (fold (isosurf_init_ip L ctl met0 met1) [0..<nat (np atm)] atm)
      else if isosurf ctl = 4 then
        (case file of
           None \<Rightarrow> Inl Cannot_open_file
         | Some ls \<Rightarrow>
             (case read_balloon (NP L) ls atm of
                Inl e \<Rightarrow> Inl e
              | Inr a \<Rightarrow> if iso_n a < 1 then Inl Could_not_read_any_data else Inr a))
      else Inr atm)"

text \<open>
  Lines 823-832: the pressure that mode 4 assigns to a particle whose time is \<open>t\<close>, from
  the balloon series held in \<open>iso_ts\<close>, \<open>iso_ps\<close> and \<open>iso_n\<close>.
\<close>

definition balloon_pressure :: "libtrac \<Rightarrow> atm_t \<Rightarrow> real \<Rightarrow> real" where
  "balloon_pressure L atm t =
     (if t \<le> iso_ts atm ! 0 then iso_ps atm ! 0
      else if t \<ge> iso_ts atm ! nat (iso_n atm - 1) then iso_ps atm ! nat (iso_n atm - 1)
      else
        let idx = locate_irr L (iso_ts atm) (iso_n atm) t
        in LIN (iso_ts atm ! nat idx) (iso_ps atm ! nat idx)
             (iso_ts atm ! nat (idx + 1)) (iso_ps atm ! nat (idx + 1)) t)"

definition isosurf_ip :: "libtrac \<Rightarrow> ctl_t \<Rightarrow> met_t \<Rightarrow> met_t \<Rightarrow> nat \<Rightarrow> atm_t \<Rightarrow> atm_t" where
  "isosurf_ip L ctl met0 met1 ip atm =
     (if isosurf ctl = 1 then atm\<lparr>p := (p atm)[ip := iso_var atm ! ip]\<rparr>
      else if isosurf ctl = 2 then
        let t = intpol_t L met0 met1 atm ip
        in atm\<lparr>p := (p atm)[ip := iso_var atm ! ip * t]\<rparr>
      else if isosurf ctl = 3 then
        let t = intpol_t L met0 met1 atm ip
        in atm\<lparr>p := (p atm)[ip := 1000 * (iso_var atm ! ip / t) powr (- 1 / 0.286)]\<rparr>
      else if isosurf ctl = 4 then
        atm\<lparr>p := (p atm)[ip := balloon_pressure L atm (time atm ! ip)]\<rparr>
      else atm)"

definition module_isosurf :: "libtrac \<Rightarrow> ctl_t \<Rightarrow> met_t \<Rightarrow> met_t \<Rightarrow> atm_t \<Rightarrow> atm_t" where
  "module_isosurf L ctl met0 met1 atm = fold (isosurf_ip L ctl met0 met1) [0..<nat (np atm)] atm"

text \<open>
  The value that one iteration of the loop of \<open>module_isosurf_init\<close> stores in
  \<open>iso_var[ip]\<close>, and the value that one iteration of the loop of \<open>module_isosurf\<close>
  stores in \<open>p[ip]\<close>; in a mode that assigns nothing it is the old entry.
\<close>

definition iso_target :: "libtrac \<Rightarrow> ctl_t \<Rightarrow> met_t \<Rightarrow> met_t \<Rightarrow> atm_t \<Rightarrow> nat \<Rightarrow> real" where
  "iso_target L ctl met0 met1 atm ip =
     (if isosurf ctl = 1 then p atm ! ip
      else if isosurf ctl = 2 then p atm ! ip / intpol_t L met0 met1 atm ip
      else if isosurf ctl = 3 then THETA (p atm ! ip) (intpol_t L met0 met1 atm ip)
      else iso_var atm ! ip)"

definition iso_enforced :: "libtrac \<Rightarrow> ctl_t \<Rightarrow> met_t \<Rightarrow> met_t \<Rightarrow> atm_t \<Rightarrow> nat \<Rightarrow> real" where
  "iso_enforced L ctl met0 met1 atm ip =
     (if isosurf ctl = 1 then iso_var atm ! ip
      else if isosurf ctl = 2 then iso_var atm ! ip * intpol_t L met0 met1 atm ip
      else if isosurf ctl = 3 then
        1000 * (iso_var atm ! ip / intpol_t L met0 met1 atm ip) powr (- 1 / 0.286)
      else if isosurf ctl = 4 then balloon_pressure L atm (time atm ! ip)
      else p atm ! ip)"

section \<open>Diagnostics (module_meteo)\<close>

text \<open>
  An access \<open>atm->q[iq][ip]\<close> is inside the quantity array when \<open>iq\<close> is the index of a
  row and \<open>ip\<close> an index of that row; outside it the model returns the error with the
  row index.
\<close>

definition q_read :: "atm_t \<Rightarrow> int \<Rightarrow> nat \<Rightarrow> error + real" where
  "q_read atm iq ip =
     (if 0 \<le> iq \<and> iq < int (length (q atm)) \<and> ip < length (q atm ! nat iq)
      then Inr (q atm ! nat iq ! ip) else Inl (Index_out_of_bounds iq))"

definition q_write :: "int \<Rightarrow> nat \<Rightarrow> real \<Rightarrow> atm_t \<Rightarrow> error + atm_t" where
  "q_write iq ip x atm =
     (if 0 \<le> iq \<and> iq < int (length (q atm)) \<and> ip < length (q atm ! nat iq)
      then Inr (atm\<lparr>q := (q atm)[nat iq := (q atm ! nat iq)[ip := x]]\<rparr>)
      else Inl (Index_out_of_bounds iq))"

definition err_bind :: "error + 'a \<Rightarrow> ('a \<Rightarrow> error + 'b) \<Rightarrow> error + 'b" where
  "err_bind m f = (case m of Inl e \<Rightarrow> Inl e | Inr x \<Rightarrow> f x)"

text \<open>The statement \<open>if (iq >= 0) atm->q[iq][ip] = x;\<close>.\<close>

definition q_set_req :: "nat \<Rightarrow> int \<times> real \<Rightarrow> error + atm_t \<Rightarrow> error + atm_t" where
  "q_set_req ip iqx s =
     err_bind s (\<lambda>a. if fst iqx \<ge> 0 then q_write (fst iqx) ip (snd iqx) a else Inr a)"

text \<open>Lines 923-942, T_NAT: the two roots, each stored when positive.\<close>

definition meteo_tnat :: "libtrac \<Rightarrow> ctl_t \<Rightarrow> real \<Rightarrow> nat \<Rightarrow> atm_t \<Rightarrow> error + atm_t" where
  "meteo_tnat L ctl h2o ip atm =
     (if qnt_tnat ctl \<ge> 0 then
        let p_hno3 = (if psc_hno3 ctl > 0 then psc_hno3 ctl * p atm ! ip / 1.333224
                      else clim_hno3 L (time atm ! ip) (lat atm ! ip) (p atm ! ip)
                             * (1 / 10 ^ 9) * p atm ! ip / 1.333224);
            p_h2o = (if psc_h2o ctl > 0 then psc_h2o ctl else h2o) * p atm ! ip / 1.333224;
            a = 0.009179 - 0.00088 * log 10 p_h2o;
            b = (38.9855 - log 10 p_hno3 - 2.7836 * log 10 p_h2o) / a;
            c = - 11397.0 / a;
            x1 = (- b + sqrt (b * b - 4 * c)) / 2;
            x2 = (- b - sqrt (b * b - 4 * c)) / 2
        in err_bind (if x1 > 0 then q_write (qnt_tnat ctl) ip x1 atm else Inr atm)
             (\<lambda>a1. if x2 > 0 then q_write (qnt_tnat ctl) ip x2 a1 else Inr a1)
      else Inr atm)"

text \<open>Lines 944-948, T_STS: the mean of the slots \<open>qnt_tice\<close> and \<open>qnt_tnat\<close>.\<close>

definition meteo_tsts :: "ctl_t \<Rightarrow> nat \<Rightarrow> atm_t \<Rightarrow> error + atm_t" where
  "meteo_tsts ctl ip atm =
     (if qnt_tsts ctl \<ge> 0 then
        err_bind (q_read atm (qnt_tice ctl) ip) (\<lambda>tice.
        err_bind (q_read atm (qnt_tnat ctl) ip) (\<lambda>tnat.
          q_write (qnt_tsts ctl) ip (0.5 * (tice + tnat)) atm))
      else Inr atm)"

text \<open>The fifteen guarded assignments of lines 860-921, in the order of the source.\<close>

definition meteo_writes :: "libtrac \<Rightarrow> ctl_t \<Rightarrow> met_vals \<Rightarrow> real \<Rightarrow> (int \<times> real) list" where
  "meteo_writes L ctl m pr =
     [(qnt_ps ctl, iv_ps m),
      (qnt_pt ctl, iv_pt m),
      (qnt_p ctl, pr),
      (qnt_z ctl, iv_z m),
      (qnt_t ctl, iv_t m),
      (qnt_u ctl, iv_u m),
      (qnt_v ctl, iv_v m),
      (qnt_w ctl, iv_w m),
      (qnt_h2o ctl, iv_h2o m),
      (qnt_o3 ctl, iv_o3 m),
      (qnt_vh ctl, sqrt (iv_u m * iv_u m + iv_v m * iv_v m)),
      (qnt_vz ctl, - 1000 * H0 L / pr * iv_w m),
      (qnt_theta ctl, THETA pr (iv_t m)),
      (qnt_pv ctl, iv_pv m),
      (qnt_tice ctl, - 2663.5 /
         (log 10 ((if psc_h2o ctl > 0 then psc_h2o ctl else iv_h2o m) * pr * 100) - 12.537))]"

definition meteo_ip :: "libtrac \<Rightarrow> ctl_t \<Rightarrow> met_t \<Rightarrow> met_t \<Rightarrow> nat \<Rightarrow> atm_t \<Rightarrow> error + atm_t" where
  "meteo_ip L ctl met0 met1 ip atm =
     (let m = intpol_met_time L met0 met1 (time atm ! ip) (p atm ! ip)
                (lon atm ! ip) (lat atm ! ip)
      in err_bind (fold (q_set_req ip) (meteo_writes L ctl m (p atm ! ip)) (Inr atm))
           (\<lambda>a1. err_bind (meteo_tnat L ctl (iv_h2o m) ip a1) (meteo_tsts ctl ip)))"

definition module_meteo :: "libtrac \<Rightarrow> ctl_t \<Rightarrow> met_t \<Rightarrow> met_t \<Rightarrow> atm_t \<Rightarrow> error + atm_t" where
  "module_meteo L ctl met0 met1 atm =
     fold (\<lambda>ip s. err_bind s (meteo_ip L ctl met0 met1 ip)) [0..<nat (np atm)] (Inr atm)"

text \<open>The quantity indices of the control parameters that \<open>module_meteo\<close> uses.\<close>

definition meteo_indices :: "ctl_t \<Rightarrow> int list" where
  "meteo_indices ctl =
     [qnt_ps ctl, qnt_pt ctl, qnt_p ctl, qnt_z ctl, qnt_t ctl, qnt_u ctl, qnt_v ctl, qnt_w ctl,
      qnt_h2o ctl, qnt_o3 ctl, qnt_vh ctl, qnt_vz ctl, qnt_theta ctl, qnt_pv ctl, qnt_tice ctl,
      qnt_tnat ctl, qnt_tsts ctl]"

text \<open>
  For the row lengths \<open>sh\<close> of a quantity array: the index \<open>iq\<close> is below the number of
  rows, and when it is requested (\<open>iq \<ge> 0\<close>) its row holds the particle \<open>ip\<close>.
\<close>

definition slot_ok :: "nat list \<Rightarrow> nat \<Rightarrow> int \<Rightarrow> bool" where
  "slot_ok sh ip iq \<longleftrightarrow> iq < int (length sh) \<and> (0 \<le> iq \<longrightarrow> ip < sh ! nat iq)"

section \<open>Position check (module_position)\<close>

text \<open>
  The body of the latitude loop, lines 977-984, on the pair \<open>(lat, lon)\<close>: the reflection
  at the north pole, then the reflection at the south pole of the latitude it leaves.
\<close>

definition reflect_lat :: "real \<times> real \<Rightarrow> real \<times> real" where
  "reflect_lat s =
     (let s1 = (if fst s > 90 then (180 - fst s, snd s + 180) else s)
      in if fst s1 < - 90 then (- 180 - fst s1, snd s1 + 180) else s1)"

function check_lat :: "real \<times> real \<Rightarrow> real \<times> real" where
  "check_lat s = (if fst s < - 90 \<or> fst s > 90 then check_lat (reflect_lat s) else s)"
  by pat_completeness auto
termination
proof (relation "measure (\<lambda>s. nat \<lceil>\<bar>fst s\<bar>\<rceil>)")
  show "wf (measure (\<lambda>s::real \<times> real. nat \<lceil>\<bar>fst s\<bar>\<rceil>))"
    by simp
next
  fix s :: "real \<times> real"
  assume out: "fst s < - 90 \<or> 90 < fst s"
  consider "270 < fst s" | "90 < fst s" "fst s \<le> 270" | "fst s < - 90" "- 270 \<le> fst s"
    | "fst s < - 270"
    using out by linarith
  then have "nat \<lceil>\<bar>fst (reflect_lat s)\<bar>\<rceil> < nat \<lceil>\<bar>fst s\<bar>\<rceil>"
  proof cases
    case 1
    then have "fst (reflect_lat s) = fst s - 360"
      by (simp add: reflect_lat_def Let_def)
    with 1 show ?thesis by linarith
  next
    case 2
    then have "fst (reflect_lat s) = 180 - fst s"
      by (simp add: reflect_lat_def Let_def)
    with 2 have "\<bar>fst (reflect_lat s)\<bar> \<le> 90" and "90 < \<bar>fst s\<bar>"
      by linarith+
    then have "\<lceil>\<bar>fst (reflect_lat s)\<bar>\<rceil> \<le> 90" and "90 < \<lceil>\<bar>fst s\<bar>\<rceil>"
      by (simp_all add: ceiling_le_iff less_ceiling_iff)
    then show ?thesis by linarith
  next
    case 3
    then have "fst (reflect_lat s) = - 180 - fst s"
      by (simp add: reflect_lat_def Let_def)
    with 3 have "\<bar>fst (reflect_lat s)\<bar> \<le> 90" and "90 < \<bar>fst s\<bar>"
      by linarith+
    then have "\<lceil>\<bar>fst (reflect_lat s)\<bar>\<rceil> \<le> 90" and "90 < \<lceil>\<bar>fst s\<bar>\<rceil>"
      by (simp_all add: ceiling_le_iff less_ceiling_iff)
    then show ?thesis by linarith
  next
    case 4
    then have "fst (reflect_lat s) = - 180 - fst s"
      by (simp add: reflect_lat_def Let_def)
    with 4 have "\<bar>fst (reflect_lat s)\<bar> = \<bar>fst s\<bar> - 180" and "270 < \<bar>fst s\<bar>"
      by linarith+
    then show ?thesis by linarith
  qed
  then show "(reflect_lat s, s) \<in> measure (\<lambda>s. nat \<lceil>\<bar>fst s\<bar>\<rceil>)"
    by simp
qed

text \<open>The two longitude loops, lines 988-991.\<close>

function lon_up :: "real \<Rightarrow> real" where
  "lon_up x = (if x < - 180 then lon_up (x + 360) else x)"
  by pat_completeness auto
termination
proof (relation "measure (\<lambda>x. nat \<lceil>- x\<rceil>)")
  show "wf (measure (\<lambda>x::real. nat \<lceil>- x\<rceil>))"
    by simp
next
  fix x :: real
  assume "x < - 180"
  then have "nat \<lceil>- (x + 360)\<rceil> < nat \<lceil>- x\<rceil>"
    by linarith
  then show "(x + 360, x) \<in> measure (\<lambda>x. nat \<lceil>- x\<rceil>)"
    by simp
qed

function lon_down :: "real \<Rightarrow> real" where
  "lon_down x = (if x \<ge> 180 then lon_down (x - 360) else x)"
  by pat_completeness auto
termination
proof (relation "measure (\<lambda>x. nat \<lceil>x\<rceil>)")
  show "wf (measure (\<lambda>x::real. nat \<lceil>x\<rceil>))"
    by simp
next
  fix x :: real
  assume "180 \<le> x"
  then have "nat \<lceil>x - 360\<rceil> < nat \<lceil>x\<rceil>"
    by linarith
  then show "(x - 360, x) \<in> measure (\<lambda>x. nat \<lceil>x\<rceil>)"
    by simp
qed

text \<open>Lines 971-991: the new longitude and latitude of a particle, as the pair \<open>(lat, lon)\<close>.\<close>

definition wrap_position :: "real \<Rightarrow> real \<Rightarrow> real \<times> real" where
  "wrap_position lon0 lat0 =
     (let s = check_lat (FMOD lat0 360, FMOD lon0 360)
      in (fst s, lon_down (lon_up (snd s))))"

definition position_ip :: "libtrac \<Rightarrow> met_t \<Rightarrow> met_t \<Rightarrow> real list \<Rightarrow> nat \<Rightarrow> atm_t \<Rightarrow> atm_t" where
  "position_ip L met0 met1 dt ip atm =
     (if dt ! ip \<noteq> 0 then
        let s = wrap_position (lon atm ! ip) (lat atm ! ip);
            a = atm\<lparr>lon := (lon atm)[ip := snd s], lat := (lat atm)[ip := fst s]\<rparr>;
            ptop = met_t.p met0 ! nat (met_t.np met0 - 1)
        in if p a ! ip < ptop then a\<lparr>p := (p a)[ip := ptop]\<rparr>
           else if p a ! ip > 300 then
             let ps = iv_ps (intpol_met_time L met0 met1 (time a ! ip) (p a ! ip)
                               (lon a ! ip) (lat a ! ip))
             in if p a ! ip > ps then a\<lparr>p := (p a)[ip := ps]\<rparr> else a
           else a
      else atm)"

definition module_position :: "libtrac \<Rightarrow> met_t \<Rightarrow> met_t \<Rightarrow> atm_t \<Rightarrow> real list \<Rightarrow> atm_t" where
  "module_position L met0 met1 atm dt =
     fold (position_ip L met0 met1 dt) [0..<nat (np atm)] atm"

section \<open>State of one particle\<close>

text \<open>
  The state fields of particle \<open>ip\<close> are its time, longitude, latitude and pressure, its
  fluctuation components \<open>up\<close>, \<open>vp\<close>, \<open>wp\<close> and its column of the quantity array.
  \<open>same_particle ip a b\<close> holds when they are the same in \<open>a\<close> and \<open>b\<close>.
\<close>

definition same_particle :: "nat \<Rightarrow> atm_t \<Rightarrow> atm_t \<Rightarrow> bool" where
  "same_particle ip a b \<longleftrightarrow>
     time b ! ip = time a ! ip \<and> lon b ! ip = lon a ! ip \<and> lat b ! ip = lat a ! ip
     \<and> p b ! ip = p a ! ip
     \<and> up b ! ip = up a ! ip \<and> vp b ! ip = vp a ! ip \<and> wp b ! ip = wp a ! ip
     \<and> map (\<lambda>row. row ! ip) (q b) = map (\<lambda>row. row ! ip) (q a)"

section \<open>Sample data\<close>

text \<open>A small configuration, snapshot and ensemble on which the theorems are instantiated.\<close>

definition ctl_ex :: ctl_t where
  "ctl_ex = \<lparr>direction = 1, t_start = 0, t_stop = 100, dt_mod = 10, dt_met = 20,
     met_dt_out = 0, turb_dx_trop = 50, turb_dx_strat = 0, turb_dz_trop = 0,
     turb_dz_strat = 0.1, turb_mesox = 0.16, turb_mesoz = 0.16, tdec_trop = 2, tdec_strat = 3,
     psc_h2o = 0, psc_hno3 = 0, isosurf = 1, qnt_m = 0, qnt_r = 1, qnt_rho = 2,
     qnt_ps = - 1, qnt_pt = - 1, qnt_p = - 1, qnt_z = - 1, qnt_t = - 1, qnt_u = - 1,
     qnt_v = - 1, qnt_w = - 1, qnt_h2o = - 1, qnt_o3 = - 1, qnt_vh = - 1, qnt_vz = - 1,
     qnt_theta = - 1, qnt_pv = - 1, qnt_tice = - 1, qnt_tnat = - 1, qnt_tsts = - 1\<rparr>"

definition met_ex :: met_t where
  "met_ex = \<lparr>met_t.time = 0, nx = 2, ny = 2, met_t.np = 2, met_t.lon = [0, 1],
     met_t.lat = [0, 1], met_t.p = [1000, 10], u = (\<lambda>c. 1), v = (\<lambda>c. 0), w = (\<lambda>c. 0)\<rparr>"

definition atm_ex :: atm_t where
  "atm_ex = \<lparr>np = 3, time = [4, 20, 5, 9], p = [200, 700, 50, 1], lon = [500, 10, 0, 0],
     lat = [100, 20, 0, 0], q = [[8, 8, 8, 8], [1, 1, 1, 1], [2, 2, 2, 2]],
     up = [0, 0, 0, 0], vp = [0, 0, 0, 0], wp = [0, 0, 0, 0],
     cache_time = (\<lambda>c. - 1), cache_usig = (\<lambda>c. 0), cache_vsig = (\<lambda>c. 0),
     cache_wsig = (\<lambda>c. 0), iso_var = [0, 0, 0, 0], iso_ts = [0, 10, 0, 0],
     iso_ps = [300, 100, 0, 0], iso_n = 2\<rparr>"

definition lib_ex :: libtrac where
  "lib_ex = \<lparr>intpol_met_time = (\<lambda>m0 m1 t pr lo la.
       \<lparr>iv_ps = 1000, iv_pt = 200, iv_z = 0, iv_t = 250, iv_u = 1, iv_v = 0, iv_w = 0,
        iv_pv = 0, iv_h2o = 0.000004, iv_o3 = 0\<rparr>),
     clim_tropo = (\<lambda>t la. 200),
     clim_hno3 = (\<lambda>t la pr. 1),
     locate_reg = (\<lambda>xs n x. 0),
     locate_irr = (\<lambda>xs n x. 0),
     stddev = (\<lambda>xs n. 0),
     DX2DEG = (\<lambda>dx la. dx),
     DY2DEG = (\<lambda>dy. dy),
     DZ2DP = (\<lambda>dz pr. - dz * pr / 7),
     H0 = 7, RA = 287.058, KB = 1.3806504 / 10 ^ 23, G0 = 9.80665, NP = 4\<rparr>"

section \<open>The time-step scheduler\<close>

lemma set_dt_ip_update:
  "set_dt_ip ctl atm t ip dt =
     dt[ip := (if real_of_int (direction ctl) * (time atm ! ip - t_start ctl) \<ge> 0
                  \<and> real_of_int (direction ctl) * (time atm ! ip - t_stop ctl) \<le> 0
                  \<and> real_of_int (direction ctl) * (time atm ! ip - t) < 0
               then t - time atm ! ip else 0)]"
  by (simp add: set_dt_ip_def Let_def)

lemma fold_set_dt_ip:
  "length (fold (set_dt_ip ctl atm t) [0..<n] dt) = length dt \<and>
   (\<forall>ip<length dt. fold (set_dt_ip ctl atm t) [0..<n] dt ! ip =
      (if ip < n
       then (if real_of_int (direction ctl) * (time atm ! ip - t_start ctl) \<ge> 0
                \<and> real_of_int (direction ctl) * (time atm ! ip - t_stop ctl) \<le> 0
                \<and> real_of_int (direction ctl) * (time atm ! ip - t) < 0
             then t - time atm ! ip else 0)
       else dt ! ip))"
proof (induction n)
  case 0
  show ?case by simp
next
  case (Suc n)
  then show ?case
    by (auto simp: set_dt_ip_update nth_list_update less_Suc_eq)
qed

text \<open>
  C1. At the global time \<open>t\<close> the scheduler sets \<open>dt[ip]\<close>, for every particle
  \<open>ip < np\<close>, to \<open>t - time[ip]\<close> exactly when
  \<open>direction * (time[ip] - t_start) \<ge> 0\<close>, \<open>direction * (time[ip] - t_stop) \<le> 0\<close> and
  \<open>direction * (time[ip] - t) < 0\<close>, and to \<open>0\<close> otherwise. The loop assigns to nothing
  but these entries: the function returns the array \<open>dt\<close> only, its length is kept and
  the entries from \<open>np\<close> on are the old ones.
\<close>

theorem scheduler_sets_dt:
  "length (set_time_steps ctl atm t dt) = length dt \<and>
   (\<forall>ip<length dt.
      set_time_steps ctl atm t dt ! ip =
        (if int ip < np atm
         then (if real_of_int (direction ctl) * (time atm ! ip - t_start ctl) \<ge> 0
                  \<and> real_of_int (direction ctl) * (time atm ! ip - t_stop ctl) \<le> 0
                  \<and> real_of_int (direction ctl) * (time atm ! ip - t) < 0
               then t - time atm ! ip else 0)
         else dt ! ip))"
  using fold_set_dt_ip [of ctl atm t "nat (np atm)" dt]
  by (auto simp add: set_time_steps_def)

theorem scheduler_sets_dt_witness:
  "set_time_steps ctl_ex atm_ex 10 [7, 7, 7, 7] ! 0 = 6
   \<and> set_time_steps ctl_ex atm_ex 10 [7, 7, 7, 7] ! 1 = 0
   \<and> set_time_steps ctl_ex atm_ex 10 [7, 7, 7, 7] ! 2 = 5
   \<and> set_time_steps ctl_ex atm_ex 10 [7, 7, 7, 7] ! 3 = 7
   \<and> length (set_time_steps ctl_ex atm_ex 10 [7, 7, 7, 7]) = 4"
  using scheduler_sets_dt [of ctl_ex atm_ex 10 "[7, 7, 7, 7]"]
  by (simp add: ctl_ex_def atm_ex_def)

section \<open>The tropopause-relative weight\<close>

lemma tropo_weight_between:
  assumes "0 < pt" "pt * 0.866877899 \<le> pr" "pr \<le> pt / 0.866877899"
  shows "tropo_weight pt pr = (pr - pt * 0.866877899) / (pt / 0.866877899 - pt * 0.866877899)"
proof -
  have d: "pt / 0.866877899 - pt * 0.866877899 > 0"
    using assms(1) by (simp add: field_simps)
  have "tropo_weight pt pr
      = 1 + (0 - 1) / (pt * 0.866877899 - pt / 0.866877899) * (pr - pt / 0.866877899)"
    using assms by (simp add: tropo_weight_def LIN_def Let_def)
  also have "\<dots> = 1 + (pr - pt / 0.866877899) / (pt / 0.866877899 - pt * 0.866877899)"
    by (simp add: field_simps)
  also have "\<dots> = (pr - pt * 0.866877899) / (pt / 0.866877899 - pt * 0.866877899)"
    using d by (simp add: field_simps)
  finally show ?thesis .
qed

lemma tropo_weight_range:
  assumes pos: "0 < pt"
  shows "0 \<le> tropo_weight pt pr \<and> tropo_weight pt pr \<le> 1"
proof -
  have d: "pt / 0.866877899 - pt * 0.866877899 > 0"
    using pos by (simp add: field_simps)
  consider "pr > pt / 0.866877899" | "pr \<le> pt / 0.866877899" "pr < pt * 0.866877899"
    | "pt * 0.866877899 \<le> pr" "pr \<le> pt / 0.866877899"
    by linarith
  then show ?thesis
  proof cases
    case 1
    then show ?thesis by (simp add: tropo_weight_def Let_def)
  next
    case 2
    then show ?thesis by (simp add: tropo_weight_def Let_def)
  next
    case 3
    then show ?thesis
      using d by (simp add: tropo_weight_between [OF pos 3])
  qed
qed

lemma tropo_weight_mono:
  assumes pos: "0 < pt" and ab: "a \<le> b"
  shows "tropo_weight pt a \<le> tropo_weight pt b"
proof -
  have d: "pt / 0.866877899 - pt * 0.866877899 > 0"
    using pos by (simp add: field_simps)
  have r: "0 \<le> tropo_weight pt x \<and> tropo_weight pt x \<le> 1" for x
    using tropo_weight_range [OF pos] by simp
  consider "b > pt / 0.866877899" | "a < pt * 0.866877899" "b \<le> pt / 0.866877899"
    | "pt * 0.866877899 \<le> a" "b \<le> pt / 0.866877899"
    by linarith
  then show ?thesis
  proof cases
    case 1
    then have "tropo_weight pt b = 1"
      by (simp add: tropo_weight_def Let_def)
    then show ?thesis using r [of a] by simp
  next
    case 2
    then have "tropo_weight pt a = 0"
      using ab by (simp add: tropo_weight_def Let_def)
    then show ?thesis using r [of b] by simp
  next
    case 3
    then have "tropo_weight pt a
        = (a - pt * 0.866877899) / (pt / 0.866877899 - pt * 0.866877899)"
      and "tropo_weight pt b
        = (b - pt * 0.866877899) / (pt / 0.866877899 - pt * 0.866877899)"
      using ab pos by (simp_all add: tropo_weight_between)
    then show ?thesis using d ab by (simp add: divide_right_mono)
  qed
qed

text \<open>
  C4, as amended. The thresholds of the code are \<open>pt / 0.866877899\<close> and
  \<open>pt * 0.866877899\<close>, not the rounded \<open>0.8669\<close>. For a positive tropopause pressure
  \<open>pt\<close> the weight is \<open>1\<close> at \<open>pt / 0.866877899\<close> and \<open>0\<close> at \<open>pt * 0.866877899\<close>;
  between the two thresholds it is the affine function of the pressure through these two
  points, and it is nowhere decreasing in the pressure.
\<close>

theorem tropo_weight_thresholds:
  assumes "0 < pt"
  shows "tropo_weight pt (pt / 0.866877899) = 1
    \<and> tropo_weight pt (pt * 0.866877899) = 0
    \<and> (\<forall>pr. pt * 0.866877899 \<le> pr \<and> pr \<le> pt / 0.866877899 \<longrightarrow>
          tropo_weight pt pr
            = (pr - pt * 0.866877899) / (pt / 0.866877899 - pt * 0.866877899))
    \<and> (\<forall>a b. a \<le> b \<longrightarrow> tropo_weight pt a \<le> tropo_weight pt b)"
proof -
  have "tropo_weight pt (pt / 0.866877899) = 1"
    using assms by (simp add: tropo_weight_def LIN_def Let_def)
  moreover have "tropo_weight pt (pt * 0.866877899) = 0"
    using assms by (simp add: tropo_weight_def LIN_def Let_def field_simps)
  ultimately show ?thesis
    using tropo_weight_between [OF assms] tropo_weight_mono [OF assms] by blast
qed

theorem tropo_weight_thresholds_witness:
  "(0::real) < 200
   \<and> tropo_weight 200 (200 / 0.866877899) = 1
   \<and> tropo_weight 200 (200 * 0.866877899) = 0
   \<and> tropo_weight 200 190 \<le> tropo_weight 200 210"
  using tropo_weight_thresholds [of 200] by simp

text \<open>
  With the constant \<open>0.8669\<close> of the claim the weight is neither \<open>1\<close> at \<open>pt / 0.8669\<close>
  nor \<open>0\<close> at \<open>pt * 0.8669\<close>: here for the tropopause pressure \<open>173.38\<close>, where
  \<open>pt / 0.8669 = 200\<close>.
\<close>

theorem tropo_weight_rounded_constant_counterexample:
  "tropo_weight 173.38 (173.38 / 0.8669) \<noteq> 1 \<and> tropo_weight 173.38 (173.38 * 0.8669) \<noteq> 0"
  by (simp add: tropo_weight_def LIN_def Let_def)

section \<open>Exponential decay\<close>

lemma nth_update_row:
  assumes "k < length xss" "j < length (xss ! k)"
  shows "xss[i := (xss ! i)[n := x]] ! k ! j = (if k = i \<and> j = n then x else xss ! k ! j)"
proof (cases "k = i")
  case True
  then show ?thesis using assms by (simp add: nth_list_update)
next
  case False
  then show ?thesis by simp
qed

lemma length_update_row:
  assumes "k < length xss"
  shows "length (xss[i := (xss ! i)[n := x]] ! k) = length (xss ! k)"
proof (cases "k = i")
  case True
  then show ?thesis using assms by simp
next
  case False
  then show ?thesis by simp
qed

text \<open>The state after the first \<open>n\<close> iterations of the loop of \<open>module_decay\<close>.\<close>

lemma decay_fold:
  "time (fold (decay_ip L ctl dt) [0..<n] atm) = time atm \<and>
   lat (fold (decay_ip L ctl dt) [0..<n] atm) = lat atm \<and>
   p (fold (decay_ip L ctl dt) [0..<n] atm) = p atm \<and>
   length (q (fold (decay_ip L ctl dt) [0..<n] atm)) = length (q atm) \<and>
   (\<forall>k<length (q atm).
      length (q (fold (decay_ip L ctl dt) [0..<n] atm) ! k) = length (q atm ! k)) \<and>
   (\<forall>k<length (q atm). \<forall>j<length (q atm ! k).
      q (fold (decay_ip L ctl dt) [0..<n] atm) ! k ! j =
        (if k = nat (qnt_m ctl) \<and> j < n \<and> dt ! j \<noteq> 0
         then q atm ! k ! j * decay_factor L ctl atm dt j else q atm ! k ! j))"
proof (induction n)
  case 0
  show ?case by simp
next
  case (Suc n)
  define A where "A = fold (decay_ip L ctl dt) [0..<n] atm"
  have step: "fold (decay_ip L ctl dt) [0..<Suc n] atm = decay_ip L ctl dt n A"
    by (simp add: A_def)
  from Suc show ?case
    unfolding step A_def [symmetric]
    by (auto simp: decay_ip_def decay_factor_def Let_def nth_update_row length_update_row
        less_Suc_eq)
qed

lemma decay_factor_le_one:
  assumes "0 \<le> dt ! ip" "0 < tdec_trop ctl" "0 < tdec_strat ctl"
    "0 < clim_tropo L (time atm ! ip) (lat atm ! ip)"
  shows "0 < decay_factor L ctl atm dt ip \<and> decay_factor L ctl atm dt ip \<le> 1"
proof -
  let ?w = "tropo_weight (clim_tropo L (time atm ! ip) (lat atm ! ip)) (p atm ! ip)"
  have wgt: "0 \<le> ?w" "?w \<le> 1"
    using tropo_weight_range [OF assms(4)] by simp_all
  have "0 < ?w * tdec_trop ctl + (1 - ?w) * tdec_strat ctl"
  proof (cases "?w = 0")
    case True
    then show ?thesis using assms(3) by simp
  next
    case False
    then have "0 < ?w * tdec_trop ctl"
      using wgt(1) assms(2) by simp
    moreover have "0 \<le> (1 - ?w) * tdec_strat ctl"
      using wgt(2) assms(3) by simp
    ultimately show ?thesis by linarith
  qed
  then have "- dt ! ip / (?w * tdec_trop ctl + (1 - ?w) * tdec_strat ctl) \<le> 0"
    using assms(1) by (simp add: divide_nonpos_pos)
  then show ?thesis
    by (simp add: decay_factor_def)
qed

text \<open>
  C7, as amended. For a particle \<open>ip < np\<close> with \<open>dt[ip] \<ge> 0\<close>, both lifetimes positive
  and a positive tropopause pressure at the particle, the decay module never increases
  the magnitude of the mass, \<open>|mass_after| \<le> |mass_before|\<close>; when the mass is not
  negative, \<open>mass_after \<le> mass_before\<close>. The mass is the slot \<open>qnt_m\<close> of the quantity
  array, which holds the particle.
\<close>

theorem decay_never_increases_magnitude:
  assumes "int ip < np atm"
    and "nat (qnt_m ctl) < length (q atm)"
    and "ip < length (q atm ! nat (qnt_m ctl))"
    and "0 \<le> dt ! ip" and "0 < tdec_trop ctl" and "0 < tdec_strat ctl"
    and "0 < clim_tropo L (time atm ! ip) (lat atm ! ip)"
  shows "\<bar>q (module_decay L ctl atm dt) ! nat (qnt_m ctl) ! ip\<bar> \<le> \<bar>q atm ! nat (qnt_m ctl) ! ip\<bar>
    \<and> (0 \<le> q atm ! nat (qnt_m ctl) ! ip
       \<longrightarrow> q (module_decay L ctl atm dt) ! nat (qnt_m ctl) ! ip \<le> q atm ! nat (qnt_m ctl) ! ip)"
proof -
  let ?m = "q atm ! nat (qnt_m ctl) ! ip"
  let ?f = "decay_factor L ctl atm dt ip"
  have f: "0 < ?f" "?f \<le> 1"
    using decay_factor_le_one [OF assms(4-7)] by simp_all
  have ipn: "ip < nat (np atm)"
    using assms(1) by simp
  have eq: "q (module_decay L ctl atm dt) ! nat (qnt_m ctl) ! ip
      = (if dt ! ip \<noteq> 0 then ?m * ?f else ?m)"
    using decay_fold [of L ctl dt "nat (np atm)" atm] assms(2,3) ipn
    by (simp add: module_decay_def)
  have "\<bar>?m * ?f\<bar> \<le> \<bar>?m\<bar>"
    using f by (simp add: abs_mult mult_left_le)
  moreover have "0 \<le> ?m \<Longrightarrow> ?m * ?f \<le> ?m"
    using f by (simp add: mult_left_le)
  ultimately show ?thesis
    unfolding eq by simp
qed

theorem decay_never_increases_magnitude_witness:
  "\<bar>q (module_decay lib_ex ctl_ex atm_ex [6, 0, 5, 0]) ! nat (qnt_m ctl_ex) ! 0\<bar> \<le> 8
   \<and> q (module_decay lib_ex ctl_ex atm_ex [6, 0, 5, 0]) ! nat (qnt_m ctl_ex) ! 0 \<le> 8"
  using decay_never_increases_magnitude [of 0 atm_ex ctl_ex "[6, 0, 5, 0]" lib_ex]
  by (simp add: atm_ex_def ctl_ex_def lib_ex_def)

text \<open>
  A negative mass grows under the update: with \<open>dt = 1\<close>, lifetimes \<open>2\<close> and \<open>3\<close> and the
  mass \<open>-1\<close> of particle \<open>1\<close>, the mass after the module is \<open>-exp(-1/2)\<close>, above \<open>-1\<close>.
\<close>

theorem decay_negative_mass_counterexample:
  "0 \<le> [0, 1, 0, 0 :: real] ! 1 \<and> 0 < tdec_trop ctl_ex \<and> 0 < tdec_strat ctl_ex
   \<and> \<not> q (module_decay lib_ex ctl_ex (atm_ex\<lparr>q := [[8, - 1, 8, 8], [1, 1, 1, 1], [2, 2, 2, 2]]\<rparr>)
           [0, 1, 0, 0]) ! nat (qnt_m ctl_ex) ! 1
        \<le> q (atm_ex\<lparr>q := [[8, - 1, 8, 8], [1, 1, 1, 1], [2, 2, 2, 2]]\<rparr>) ! nat (qnt_m ctl_ex) ! 1"
proof -
  have "q (module_decay lib_ex ctl_ex (atm_ex\<lparr>q := [[8, - 1, 8, 8], [1, 1, 1, 1], [2, 2, 2, 2]]\<rparr>)
          [0, 1, 0, 0]) ! 0 ! 1 = - 1 * exp (- (1 / 2))"
    using decay_fold [of lib_ex ctl_ex "[0, 1, 0, 0]" 3
        "atm_ex\<lparr>q := [[8, - 1, 8, 8], [1, 1, 1, 1], [2, 2, 2, 2]]\<rparr>"]
    by (simp add: module_decay_def atm_ex_def ctl_ex_def lib_ex_def decay_factor_def
        tropo_weight_def Let_def)
  moreover have "exp (- (1 / 2) :: real) < 1"
    by simp
  ultimately show ?thesis
    by (simp add: ctl_ex_def)
qed

section \<open>Position check\<close>

lemma FMOD_360_bound: "\<bar>FMOD x 360\<bar> < 360"
proof -
  define y where "y = x / 360"
  have x: "x = 360 * y" by (simp add: y_def)
  have "\<bar>y - real_of_int (trunc_int y)\<bar> < 1"
    unfolding trunc_int_def by (cases "0 \<le> y") (simp; linarith)+
  moreover have "FMOD x 360 = 360 * (y - real_of_int (trunc_int y))"
    by (simp add: FMOD_def y_def algebra_simps)
  ultimately show ?thesis by (simp add: abs_mult)
qed

lemma check_lat_in: "- 90 \<le> fst s \<Longrightarrow> fst s \<le> 90 \<Longrightarrow> check_lat s = s"
  by (subst check_lat.simps) simp

lemma check_lat_out: "fst s < - 90 \<or> 90 < fst s \<Longrightarrow> check_lat s = check_lat (reflect_lat s)"
  by (subst check_lat.simps) simp

lemma check_lat_range: "- 90 \<le> fst (check_lat s) \<and> fst (check_lat s) \<le> 90"
proof (induction s rule: check_lat.induct)
  case (1 s)
  show ?case
  proof (cases "fst s < - 90 \<or> 90 < fst s")
    case True
    then show ?thesis using 1 check_lat_out [OF True] by simp
  next
    case False
    then show ?thesis using check_lat_in [of s] by simp
  qed
qed

lemma lon_up_ge: "- 180 \<le> lon_up x"
  by (induction x rule: lon_up.induct) (subst lon_up.simps, simp)

lemma lon_down_range: "- 180 \<le> x \<Longrightarrow> - 180 \<le> lon_down x \<and> lon_down x < 180"
proof (induction x rule: lon_down.induct)
  case (1 x)
  show ?case
  proof (cases "180 \<le> x")
    case True
    then have "lon_down x = lon_down (x - 360)"
      by (subst lon_down.simps) simp
    then show ?thesis using 1 True by simp
  next
    case False
    then have "lon_down x = x"
      by (subst lon_down.simps) simp
    then show ?thesis using 1 False by simp
  qed
qed

lemma wrap_position_range:
  "- 90 \<le> fst (wrap_position lo la) \<and> fst (wrap_position lo la) \<le> 90
   \<and> - 180 \<le> snd (wrap_position lo la) \<and> snd (wrap_position lo la) < 180"
  using check_lat_range lon_down_range [OF lon_up_ge]
  by (simp add: wrap_position_def Let_def)

lemma check_lat_two:
  assumes "\<bar>y\<bar> < 360"
  shows "(check_lat (y, l) = (y, l) \<or> check_lat (y, l) = reflect_lat (y, l)
          \<or> check_lat (y, l) = reflect_lat (reflect_lat (y, l)))
    \<and> (snd (check_lat (y, l)) = l \<or> snd (check_lat (y, l)) = l + 180
          \<or> snd (check_lat (y, l)) = l + 360)"
proof -
  consider "- 90 \<le> y" "y \<le> 90" | "90 < y" "y \<le> 270" | "270 < y" | "y < - 90" "- 270 \<le> y"
    | "y < - 270"
    by linarith
  then show ?thesis
  proof cases
    case 1
    then show ?thesis using check_lat_in [of "(y, l)"] by simp
  next
    case 2
    then have r: "reflect_lat (y, l) = (180 - y, l + 180)"
      by (simp add: reflect_lat_def Let_def)
    have "check_lat (y, l) = check_lat (reflect_lat (y, l))"
      using 2 check_lat_out [of "(y, l)"] by simp
    also have "\<dots> = reflect_lat (y, l)"
      unfolding r using 2 by (intro check_lat_in) simp_all
    finally show ?thesis using r by simp
  next
    case 3
    then have r: "reflect_lat (y, l) = (y - 360, l + 360)"
      by (simp add: reflect_lat_def Let_def)
    have "check_lat (y, l) = check_lat (reflect_lat (y, l))"
      using 3 check_lat_out [of "(y, l)"] by simp
    also have "\<dots> = reflect_lat (y, l)"
      unfolding r using 3 assms by (intro check_lat_in) simp_all
    finally show ?thesis using r by simp
  next
    case 4
    then have r: "reflect_lat (y, l) = (- 180 - y, l + 180)"
      by (simp add: reflect_lat_def Let_def)
    have "check_lat (y, l) = check_lat (reflect_lat (y, l))"
      using 4 check_lat_out [of "(y, l)"] by simp
    also have "\<dots> = reflect_lat (y, l)"
      unfolding r using 4 by (intro check_lat_in) simp_all
    finally show ?thesis using r by simp
  next
    case 5
    then have r: "reflect_lat (y, l) = (- 180 - y, l + 180)"
      by (simp add: reflect_lat_def Let_def)
    have r2: "reflect_lat (- 180 - y, l + 180) = (360 + y, l + 360)"
      using 5 assms by (simp add: reflect_lat_def Let_def)
    have "check_lat (y, l) = check_lat (reflect_lat (y, l))"
      using 5 check_lat_out [of "(y, l)"] by simp
    also have "\<dots> = check_lat (reflect_lat (reflect_lat (y, l)))"
      unfolding r using 5 assms by (intro check_lat_out) simp
    also have "\<dots> = reflect_lat (reflect_lat (y, l))"
      unfolding r r2 using 5 assms by (intro check_lat_in) simp_all
    finally show ?thesis using r r2 by simp
  qed
qed


lemma position_fold:
  assumes "n \<le> length (lon atm)" "n \<le> length (lat atm)"
  shows "length (lon (fold (position_ip L met0 met1 dt) [0..<n] atm)) = length (lon atm) \<and>
   length (lat (fold (position_ip L met0 met1 dt) [0..<n] atm)) = length (lat atm) \<and>
   (\<forall>j<length (lon atm). lon (fold (position_ip L met0 met1 dt) [0..<n] atm) ! j =
      (if j < n \<and> dt ! j \<noteq> 0 then snd (wrap_position (lon atm ! j) (lat atm ! j))
       else lon atm ! j)) \<and>
   (\<forall>j<length (lat atm). lat (fold (position_ip L met0 met1 dt) [0..<n] atm) ! j =
      (if j < n \<and> dt ! j \<noteq> 0 then fst (wrap_position (lon atm ! j) (lat atm ! j))
       else lat atm ! j))"
  using assms
proof (induction n)
  case 0
  show ?case by simp
next
  case (Suc n)
  define A where "A = fold (position_ip L met0 met1 dt) [0..<n] atm"
  have step: "fold (position_ip L met0 met1 dt) [0..<Suc n] atm = position_ip L met0 met1 dt n A"
    by (simp add: A_def)
  from Suc show ?case
    unfolding step A_def [symmetric]
    by (auto simp: position_ip_def Let_def nth_list_update less_Suc_eq)
qed

text \<open>
  C3, as amended. After \<open>module_position\<close> every particle \<open>ip < np\<close> with
  \<open>dt[ip] \<noteq> 0\<close> has \<open>-180 \<le> lon < 180\<close> and \<open>-90 \<le> lat \<le> 90\<close>, whatever its
  longitude and latitude were before; the particle arrays hold at least \<open>np\<close> entries.
\<close>

theorem position_in_range:
  assumes "int ip < np atm" and "dt ! ip \<noteq> 0"
    and "nat (np atm) \<le> length (lon atm)" and "nat (np atm) \<le> length (lat atm)"
  shows "- 180 \<le> lon (module_position L met0 met1 atm dt) ! ip
    \<and> lon (module_position L met0 met1 atm dt) ! ip < 180
    \<and> - 90 \<le> lat (module_position L met0 met1 atm dt) ! ip
    \<and> lat (module_position L met0 met1 atm dt) ! ip \<le> 90"
proof -
  have ipn: "ip < nat (np atm)"
    using assms(1) by simp
  then have "lon (module_position L met0 met1 atm dt) ! ip
      = snd (wrap_position (lon atm ! ip) (lat atm ! ip))"
    and "lat (module_position L met0 met1 atm dt) ! ip
      = fst (wrap_position (lon atm ! ip) (lat atm ! ip))"
    using position_fold [OF assms(3,4), of L met0 met1 dt] assms(2-4)
    by (simp_all add: module_position_def)
  then show ?thesis
    using wrap_position_range [of "lon atm ! ip" "lat atm ! ip"] by simp
qed

theorem position_in_range_witness:
  "- 180 \<le> lon (module_position lib_ex met_ex met_ex atm_ex [6, 0, 5, 0]) ! 0
    \<and> lon (module_position lib_ex met_ex met_ex atm_ex [6, 0, 5, 0]) ! 0 < 180
    \<and> - 90 \<le> lat (module_position lib_ex met_ex met_ex atm_ex [6, 0, 5, 0]) ! 0
    \<and> lat (module_position lib_ex met_ex met_ex atm_ex [6, 0, 5, 0]) ! 0 \<le> 90"
  using position_in_range [of 0 atm_ex "[6, 0, 5, 0]" lib_ex met_ex met_ex]
  by (simp add: atm_ex_def)

text \<open>
  A particle with \<open>dt = 0\<close> is skipped: particle \<open>0\<close> of the sample ensemble keeps its
  longitude \<open>500\<close> and its latitude \<open>100\<close>.
\<close>

theorem position_skips_inactive_counterexample:
  "\<not> lon (module_position lib_ex met_ex met_ex atm_ex [0, 0, 0, 0]) ! 0 < 180
   \<and> \<not> lat (module_position lib_ex met_ex met_ex atm_ex [0, 0, 0, 0]) ! 0 \<le> 90"
  using position_fold [of 3 atm_ex lib_ex met_ex met_ex "[0, 0, 0, 0]"]
  by (simp add: module_position_def atm_ex_def)

text \<open>
  C10. The latitude loop of \<open>module_position\<close> is the total function \<open>check_lat\<close>.
  After the reduction modulo 360 the latitude lies in \<open>(-360, 360)\<close>; from there the
  loop ends after no, one or two executions of its body, the longitude has been shifted
  by \<open>180\<close> at most twice (once for each reflection), and the latitude it leaves lies in
  \<open>[-90, 90]\<close>.
\<close>

theorem latitude_loop_two_iterations:
  "\<bar>FMOD x 360\<bar> < 360
   \<and> (check_lat (FMOD x 360, l) = (FMOD x 360, l)
        \<or> check_lat (FMOD x 360, l) = reflect_lat (FMOD x 360, l)
        \<or> check_lat (FMOD x 360, l) = reflect_lat (reflect_lat (FMOD x 360, l)))
   \<and> (snd (check_lat (FMOD x 360, l)) = l \<or> snd (check_lat (FMOD x 360, l)) = l + 180
        \<or> snd (check_lat (FMOD x 360, l)) = l + 360)
   \<and> - 90 \<le> fst (check_lat (FMOD x 360, l)) \<and> fst (check_lat (FMOD x 360, l)) \<le> 90"
  using FMOD_360_bound [of x] check_lat_two [OF FMOD_360_bound, of x l]
    check_lat_range [of "(FMOD x 360, l)"]
  by simp


section \<open>Isosurface module\<close>

lemma fold_invariant:
  assumes "\<And>j a. P a \<Longrightarrow> P (f j a)" and "P a"
  shows "P (fold f js a)"
  using assms(2) by (induction js arbitrary: a) (simp_all add: assms(1))

lemma intpol_t_cong:
  "time a = time b \<Longrightarrow> p a ! j = p b ! j \<Longrightarrow> lon a = lon b \<Longrightarrow> lat a = lat b
   \<Longrightarrow> intpol_t L met0 met1 a j = intpol_t L met0 met1 b j"
  by (simp add: intpol_t_def)

lemma isosurf_init_ip_frame:
  "time (isosurf_init_ip L ctl met0 met1 ip a) = time a"
  "p (isosurf_init_ip L ctl met0 met1 ip a) = p a"
  "lon (isosurf_init_ip L ctl met0 met1 ip a) = lon a"
  "lat (isosurf_init_ip L ctl met0 met1 ip a) = lat a"
  "np (isosurf_init_ip L ctl met0 met1 ip a) = np a"
  "iso_ts (isosurf_init_ip L ctl met0 met1 ip a) = iso_ts a"
  "iso_ps (isosurf_init_ip L ctl met0 met1 ip a) = iso_ps a"
  "iso_n (isosurf_init_ip L ctl met0 met1 ip a) = iso_n a"
  "length (iso_var (isosurf_init_ip L ctl met0 met1 ip a)) = length (iso_var a)"
  by (simp_all add: isosurf_init_ip_def Let_def)

lemma isosurf_init_fold_frame:
  "time (fold (isosurf_init_ip L ctl met0 met1) js atm) = time atm \<and>
   p (fold (isosurf_init_ip L ctl met0 met1) js atm) = p atm \<and>
   lon (fold (isosurf_init_ip L ctl met0 met1) js atm) = lon atm \<and>
   lat (fold (isosurf_init_ip L ctl met0 met1) js atm) = lat atm \<and>
   np (fold (isosurf_init_ip L ctl met0 met1) js atm) = np atm \<and>
   length (iso_var (fold (isosurf_init_ip L ctl met0 met1) js atm)) = length (iso_var atm)"
  by (rule fold_invariant) (simp_all add: isosurf_init_ip_frame)

lemma isosurf_init_ip_var:
  "iso_var (isosurf_init_ip L ctl met0 met1 ip a)
     = (iso_var a)[ip := iso_target L ctl met0 met1 a ip]"
  by (simp add: isosurf_init_ip_def iso_target_def Let_def)

lemma iso_target_cong:
  "time a = time b \<Longrightarrow> p a = p b \<Longrightarrow> lon a = lon b \<Longrightarrow> lat a = lat b
   \<Longrightarrow> iso_var a ! j = iso_var b ! j
   \<Longrightarrow> iso_target L ctl met0 met1 a j = iso_target L ctl met0 met1 b j"
  by (simp add: iso_target_def intpol_t_def)

lemma isosurf_init_fold:
  "\<forall>j<length (iso_var atm).
      iso_var (fold (isosurf_init_ip L ctl met0 met1) [0..<n] atm) ! j =
        (if j < n then iso_target L ctl met0 met1 atm j else iso_var atm ! j)"
proof (induction n)
  case 0
  show ?case by simp
next
  case (Suc n)
  define A where "A = fold (isosurf_init_ip L ctl met0 met1) [0..<n] atm"
  have fr: "time A = time atm" "p A = p atm" "lon A = lon atm" "lat A = lat atm"
    "length (iso_var A) = length (iso_var atm)"
    using isosurf_init_fold_frame [of L ctl met0 met1 "[0..<n]" atm] by (simp_all add: A_def)
  have IH: "\<forall>j<length (iso_var atm).
      iso_var A ! j = (if j < n then iso_target L ctl met0 met1 atm j else iso_var atm ! j)"
    using Suc by (simp add: A_def)
  have step: "fold (isosurf_init_ip L ctl met0 met1) [0..<Suc n] atm
      = isosurf_init_ip L ctl met0 met1 n A"
    by (simp add: A_def)
  show ?case
  proof (intro allI impI)
    fix j assume j: "j < length (iso_var atm)"
    show "iso_var (fold (isosurf_init_ip L ctl met0 met1) [0..<Suc n] atm) ! j =
        (if j < Suc n then iso_target L ctl met0 met1 atm j else iso_var atm ! j)"
    proof (cases "j = n")
      case True
      have "iso_var A ! n = iso_var atm ! n"
        using IH j True by simp
      then have "iso_target L ctl met0 met1 A n = iso_target L ctl met0 met1 atm n"
        using fr by (intro iso_target_cong) simp_all
      then show ?thesis
        unfolding step using True j fr by (simp add: isosurf_init_ip_var)
    next
      case False
      then show ?thesis
        unfolding step using IH j by (simp add: isosurf_init_ip_var less_Suc_eq)
    qed
  qed
qed

lemma isosurf_ip_frame:
  "time (isosurf_ip L ctl met0 met1 ip a) = time a"
  "lon (isosurf_ip L ctl met0 met1 ip a) = lon a"
  "lat (isosurf_ip L ctl met0 met1 ip a) = lat a"
  "iso_var (isosurf_ip L ctl met0 met1 ip a) = iso_var a"
  "iso_ts (isosurf_ip L ctl met0 met1 ip a) = iso_ts a"
  "iso_ps (isosurf_ip L ctl met0 met1 ip a) = iso_ps a"
  "iso_n (isosurf_ip L ctl met0 met1 ip a) = iso_n a"
  "length (p (isosurf_ip L ctl met0 met1 ip a)) = length (p a)"
  by (simp_all add: isosurf_ip_def Let_def)

lemma isosurf_fold_frame:
  "time (fold (isosurf_ip L ctl met0 met1) js atm) = time atm \<and>
   lon (fold (isosurf_ip L ctl met0 met1) js atm) = lon atm \<and>
   lat (fold (isosurf_ip L ctl met0 met1) js atm) = lat atm \<and>
   iso_var (fold (isosurf_ip L ctl met0 met1) js atm) = iso_var atm \<and>
   iso_ts (fold (isosurf_ip L ctl met0 met1) js atm) = iso_ts atm \<and>
   iso_ps (fold (isosurf_ip L ctl met0 met1) js atm) = iso_ps atm \<and>
   iso_n (fold (isosurf_ip L ctl met0 met1) js atm) = iso_n atm \<and>
   length (p (fold (isosurf_ip L ctl met0 met1) js atm)) = length (p atm)"
  by (rule fold_invariant) (simp_all add: isosurf_ip_frame)

lemma isosurf_ip_p:
  "p (isosurf_ip L ctl met0 met1 ip a) = (p a)[ip := iso_enforced L ctl met0 met1 a ip]"
  by (simp add: isosurf_ip_def iso_enforced_def Let_def)

lemma iso_enforced_cong:
  "time a = time b \<Longrightarrow> p a ! j = p b ! j \<Longrightarrow> lon a = lon b \<Longrightarrow> lat a = lat b
   \<Longrightarrow> iso_var a = iso_var b \<Longrightarrow> iso_ts a = iso_ts b \<Longrightarrow> iso_ps a = iso_ps b
   \<Longrightarrow> iso_n a = iso_n b
   \<Longrightarrow> iso_enforced L ctl met0 met1 a j = iso_enforced L ctl met0 met1 b j"
  by (simp add: iso_enforced_def intpol_t_def balloon_pressure_def)

lemma isosurf_fold:
  "\<forall>j<length (p atm).
      p (fold (isosurf_ip L ctl met0 met1) [0..<n] atm) ! j =
        (if j < n then iso_enforced L ctl met0 met1 atm j else p atm ! j)"
proof (induction n)
  case 0
  show ?case by simp
next
  case (Suc n)
  define A where "A = fold (isosurf_ip L ctl met0 met1) [0..<n] atm"
  have fr: "time A = time atm" "lon A = lon atm" "lat A = lat atm" "iso_var A = iso_var atm"
    "iso_ts A = iso_ts atm" "iso_ps A = iso_ps atm" "iso_n A = iso_n atm"
    "length (p A) = length (p atm)"
    using isosurf_fold_frame [of L ctl met0 met1 "[0..<n]" atm] by (simp_all add: A_def)
  have IH: "\<forall>j<length (p atm).
      p A ! j = (if j < n then iso_enforced L ctl met0 met1 atm j else p atm ! j)"
    using Suc by (simp add: A_def)
  have step: "fold (isosurf_ip L ctl met0 met1) [0..<Suc n] atm = isosurf_ip L ctl met0 met1 n A"
    by (simp add: A_def)
  show ?case
  proof (intro allI impI)
    fix j assume j: "j < length (p atm)"
    show "p (fold (isosurf_ip L ctl met0 met1) [0..<Suc n] atm) ! j =
        (if j < Suc n then iso_enforced L ctl met0 met1 atm j else p atm ! j)"
    proof (cases "j = n")
      case True
      have "p A ! n = p atm ! n"
        using IH j True by simp
      then have "iso_enforced L ctl met0 met1 A n = iso_enforced L ctl met0 met1 atm n"
        using fr by (intro iso_enforced_cong) simp_all
      then show ?thesis
        unfolding step using True j fr by (simp add: isosurf_ip_p)
    next
      case False
      then show ?thesis
        unfolding step using IH j by (simp add: isosurf_ip_p less_Suc_eq)
    qed
  qed
qed

lemma read_balloon_frame:
  "read_balloon cap ls atm = Inr a \<Longrightarrow>
     time a = time atm \<and> p a = p atm \<and> lon a = lon atm \<and> lat a = lat atm
     \<and> np a = np atm \<and> iso_var a = iso_var atm"
proof (induction cap ls atm rule: read_balloon.induct)
  case (1 cap atm)
  then show ?case by simp
next
  case (2 cap ls atm)
  then show ?case by simp
next
  case (3 cap ts ps ls atm)
  then show ?case
    by (auto simp: Let_def split: if_splits)
qed

lemma theta_inverse:
  assumes "0 < pr" "0 < t"
  shows "1000 * (THETA pr t / t) powr (- 1 / 0.286) = pr"
proof -
  have "THETA pr t / t = (1000 / pr) powr 0.286"
    using assms by (simp add: THETA_def)
  then have "(THETA pr t / t) powr (- 1 / 0.286) = (1000 / pr) powr (0.286 * (- 1 / 0.286))"
    by (simp only: powr_powr)
  also have "\<dots> = (1000 / pr) powr (- 1)"
    by simp
  also have "\<dots> = pr / 1000"
    using assms by (simp add: powr_minus divide_simps)
  finally show ?thesis by simp
qed

lemma isosurf_init_result:
  assumes init: "module_isosurf_init L ctl met0 met1 file atm = Inr a"
    and ip: "ip < nat (np atm)" and len: "nat (np atm) \<le> length (iso_var atm)"
  shows "time a = time atm \<and> p a = p atm \<and> lon a = lon atm \<and> lat a = lat atm \<and> np a = np atm
    \<and> (isosurf ctl = 1 \<or> isosurf ctl = 2 \<or> isosurf ctl = 3
         \<longrightarrow> iso_var a ! ip = iso_target L ctl met0 met1 atm ip)"
proof (cases "isosurf ctl = 1 \<or> isosurf ctl = 2 \<or> isosurf ctl = 3")
  case True
  then have a: "a = fold (isosurf_init_ip L ctl met0 met1) [0..<nat (np atm)] atm"
    using init by (simp add: module_isosurf_init_def)
  show ?thesis
    using isosurf_init_fold_frame [of L ctl met0 met1 "[0..<nat (np atm)]" atm]
      isosurf_init_fold [of atm L ctl met0 met1 "nat (np atm)"] ip len
    by (simp add: a)
next
  case False
  then have "a = atm \<or> (\<exists>ls. read_balloon (NP L) ls atm = Inr a)"
    using init
    by (auto simp: module_isosurf_init_def split: if_splits option.splits sum.splits)
  then show ?thesis
    using False read_balloon_frame by blast
qed

text \<open>
  C5. After \<open>module_isosurf_init\<close> has succeeded, one call of \<open>module_isosurf\<close> on
  its result (no time has passed, the snapshots are the same) gives every particle
  \<open>ip < np\<close> the pressure derived from the stored target of the mode: the stored value
  itself in mode 1, the stored density times the temperature in mode 2, the inverse of
  the potential temperature in mode 3, the value of the balloon series in mode 4. The
  stored targets are the pressure, the density and the potential temperature at the
  time of the initialisation. In mode 1 the enforced pressure is the pressure before the
  initialisation; in modes 2 and 3 it is too, in real arithmetic, when the temperature
  (and in mode 3 the pressure) is positive.
\<close>

theorem isosurf_round_trip:
  assumes init: "module_isosurf_init L ctl met0 met1 file atm = Inr a"
    and ip: "int ip < np atm"
    and lenp: "nat (np atm) \<le> length (p atm)"
    and lenv: "nat (np atm) \<le> length (iso_var atm)"
  shows "p (module_isosurf L ctl met0 met1 a) ! ip =
      (if isosurf ctl = 1 then iso_var a ! ip
       else if isosurf ctl = 2 then iso_var a ! ip * intpol_t L met0 met1 atm ip
       else if isosurf ctl = 3 then
         1000 * (iso_var a ! ip / intpol_t L met0 met1 atm ip) powr (- 1 / 0.286)
       else if isosurf ctl = 4 then balloon_pressure L a (time atm ! ip)
       else p atm ! ip)
    \<and> (isosurf ctl = 1 \<longrightarrow> iso_var a ! ip = p atm ! ip)
    \<and> (isosurf ctl = 2 \<longrightarrow> iso_var a ! ip = p atm ! ip / intpol_t L met0 met1 atm ip)
    \<and> (isosurf ctl = 3 \<longrightarrow> iso_var a ! ip = THETA (p atm ! ip) (intpol_t L met0 met1 atm ip))
    \<and> (isosurf ctl = 1 \<longrightarrow> p (module_isosurf L ctl met0 met1 a) ! ip = p atm ! ip)
    \<and> (isosurf ctl = 2 \<and> intpol_t L met0 met1 atm ip \<noteq> 0
         \<longrightarrow> p (module_isosurf L ctl met0 met1 a) ! ip = p atm ! ip)
    \<and> (isosurf ctl = 3 \<and> 0 < intpol_t L met0 met1 atm ip \<and> 0 < p atm ! ip
         \<longrightarrow> p (module_isosurf L ctl met0 met1 a) ! ip = p atm ! ip)"
proof -
  have ipn: "ip < nat (np atm)"
    using ip by simp
  have fr: "time a = time atm" "p a = p atm" "lon a = lon atm" "lat a = lat atm" "np a = np atm"
    and tg: "isosurf ctl = 1 \<or> isosurf ctl = 2 \<or> isosurf ctl = 3
         \<Longrightarrow> iso_var a ! ip = iso_target L ctl met0 met1 atm ip"
    using isosurf_init_result [OF init ipn lenv] by simp_all
  have t: "intpol_t L met0 met1 a ip = intpol_t L met0 met1 atm ip"
    using fr by (simp add: intpol_t_def)
  have "p (module_isosurf L ctl met0 met1 a) ! ip = iso_enforced L ctl met0 met1 a ip"
    using isosurf_fold [of a L ctl met0 met1 "nat (np a)"] ipn lenp fr
    by (simp add: module_isosurf_def)
  then have enf: "p (module_isosurf L ctl met0 met1 a) ! ip =
      (if isosurf ctl = 1 then iso_var a ! ip
       else if isosurf ctl = 2 then iso_var a ! ip * intpol_t L met0 met1 atm ip
       else if isosurf ctl = 3 then
         1000 * (iso_var a ! ip / intpol_t L met0 met1 atm ip) powr (- 1 / 0.286)
       else if isosurf ctl = 4 then balloon_pressure L a (time atm ! ip)
       else p atm ! ip)"
    using fr t by (simp add: iso_enforced_def)
  have m1: "isosurf ctl = 1 \<Longrightarrow> iso_var a ! ip = p atm ! ip"
    using tg by (simp add: iso_target_def)
  have m2: "isosurf ctl = 2 \<Longrightarrow> iso_var a ! ip = p atm ! ip / intpol_t L met0 met1 atm ip"
    using tg by (simp add: iso_target_def)
  have m3: "isosurf ctl = 3
      \<Longrightarrow> iso_var a ! ip = THETA (p atm ! ip) (intpol_t L met0 met1 atm ip)"
    using tg by (simp add: iso_target_def)
  have r1: "isosurf ctl = 1 \<Longrightarrow> p (module_isosurf L ctl met0 met1 a) ! ip = p atm ! ip"
    using enf m1 by simp
  have r2: "isosurf ctl = 2 \<Longrightarrow> intpol_t L met0 met1 atm ip \<noteq> 0
      \<Longrightarrow> p (module_isosurf L ctl met0 met1 a) ! ip = p atm ! ip"
    using enf m2 by simp
  have r3: "isosurf ctl = 3 \<Longrightarrow> 0 < intpol_t L met0 met1 atm ip \<Longrightarrow> 0 < p atm ! ip
      \<Longrightarrow> p (module_isosurf L ctl met0 met1 a) ! ip = p atm ! ip"
    using enf m3 theta_inverse [of "p atm ! ip" "intpol_t L met0 met1 atm ip"] by simp
  show ?thesis
    using enf m1 m2 m3 r1 r2 r3 by blast
qed

theorem isosurf_round_trip_witness:
  "p (module_isosurf lib_ex ctl_ex met_ex met_ex
        (projr (module_isosurf_init lib_ex ctl_ex met_ex met_ex None atm_ex))) ! 1 = 700"
proof -
  have i1: "module_isosurf_init lib_ex ctl_ex met_ex met_ex None atm_ex
      = Inr (projr (module_isosurf_init lib_ex ctl_ex met_ex met_ex None atm_ex))"
    by (simp add: module_isosurf_init_def ctl_ex_def)
  show ?thesis
    using isosurf_round_trip [OF i1, of 1]
    by (simp add: atm_ex_def ctl_ex_def)
qed

lemma LIN_midpoint: "x0 \<noteq> x1 \<Longrightarrow> LIN x0 y0 x1 y1 ((x0 + x1) / 2) = (y0 + y1) / 2"
proof -
  assume ne: "x0 \<noteq> x1"
  have "(x0 + x1) / 2 - x0 = (x1 - x0) / 2"
    by (simp add: field_simps)
  then have "LIN x0 y0 x1 y1 ((x0 + x1) / 2) = y0 + (y1 - y0) / (x1 - x0) * ((x1 - x0) / 2)"
    by (simp add: LIN_def)
  also have "\<dots> = y0 + (y1 - y0) / 2"
    using ne by simp
  finally show ?thesis by (simp add: field_simps)
qed

text \<open>
  C6. In mode 4, with a series of \<open>iso_n \<ge> 1\<close> samples whose times increase strictly
  and a \<open>locate_irr\<close> that returns the lower index of the bracketing interval for a
  time strictly inside the series, \<open>module_isosurf\<close> sets the pressure of every particle
  \<open>ip < np\<close> to the first sample's pressure when its time is at or before the first
  sample time, to the last sample's pressure when it is at or after the last sample time,
  and otherwise to the linear interpolation between two bracketing neighbours of the
  series. For a series of two samples the midpoint time gives the mean of the two
  pressures.
\<close>

theorem balloon_series_enforced:
  assumes mode: "isosurf ctl = 4"
    and ip: "int ip < np atm" and lenp: "nat (np atm) \<le> length (p atm)"
    and n1: "1 \<le> iso_n atm" and lents: "nat (iso_n atm) \<le> length (iso_ts atm)"
    and asc: "sorted_wrt (<) (take (nat (iso_n atm)) (iso_ts atm))"
    and loc: "\<forall>x. iso_ts atm ! 0 < x \<and> x < iso_ts atm ! nat (iso_n atm - 1) \<longrightarrow>
        0 \<le> locate_irr L (iso_ts atm) (iso_n atm) x
        \<and> locate_irr L (iso_ts atm) (iso_n atm) x + 1 < iso_n atm
        \<and> iso_ts atm ! nat (locate_irr L (iso_ts atm) (iso_n atm) x) \<le> x
        \<and> x < iso_ts atm ! nat (locate_irr L (iso_ts atm) (iso_n atm) x + 1)"
  shows "(time atm ! ip \<le> iso_ts atm ! 0
          \<longrightarrow> p (module_isosurf L ctl met0 met1 atm) ! ip = iso_ps atm ! 0)
    \<and> (time atm ! ip \<ge> iso_ts atm ! nat (iso_n atm - 1)
          \<longrightarrow> p (module_isosurf L ctl met0 met1 atm) ! ip = iso_ps atm ! nat (iso_n atm - 1))
    \<and> (iso_ts atm ! 0 < time atm ! ip \<and> time atm ! ip < iso_ts atm ! nat (iso_n atm - 1)
          \<longrightarrow> (\<exists>i. i + 1 < nat (iso_n atm)
                \<and> iso_ts atm ! i \<le> time atm ! ip \<and> time atm ! ip < iso_ts atm ! (i + 1)
                \<and> p (module_isosurf L ctl met0 met1 atm) ! ip
                    = LIN (iso_ts atm ! i) (iso_ps atm ! i)
                        (iso_ts atm ! (i + 1)) (iso_ps atm ! (i + 1)) (time atm ! ip)))
    \<and> (iso_n atm = 2 \<and> time atm ! ip = (iso_ts atm ! 0 + iso_ts atm ! 1) / 2
          \<longrightarrow> p (module_isosurf L ctl met0 met1 atm) ! ip
                = (iso_ps atm ! 0 + iso_ps atm ! 1) / 2)"
proof -
  let ?t = "time atm ! ip"
  let ?n = "nat (iso_n atm)"
  let ?idx = "locate_irr L (iso_ts atm) (iso_n atm) ?t"
  have ipn: "ip < nat (np atm)"
    using ip by simp
  have enf: "p (module_isosurf L ctl met0 met1 atm) ! ip = balloon_pressure L atm ?t"
    using isosurf_fold [of atm L ctl met0 met1 "nat (np atm)"] ipn lenp mode
    by (simp add: module_isosurf_def iso_enforced_def)
  have mono: "iso_ts atm ! i < iso_ts atm ! j" if "i < j" "j < ?n" for i j
  proof -
    have "j < length (take ?n (iso_ts atm))"
      using that lents by simp
    then have "take ?n (iso_ts atm) ! i < take ?n (iso_ts atm) ! j"
      using sorted_wrt_nth_less [OF asc that(1)] by simp
    then show ?thesis
      using that by simp
  qed
  have last: "nat (iso_n atm - 1) < ?n"
    using n1 by simp
  have c1: "?t \<le> iso_ts atm ! 0 \<Longrightarrow> balloon_pressure L atm ?t = iso_ps atm ! 0"
    by (simp add: balloon_pressure_def)
  have c2: "balloon_pressure L atm ?t = iso_ps atm ! nat (iso_n atm - 1)"
    if ge: "?t \<ge> iso_ts atm ! nat (iso_n atm - 1)"
  proof (cases "?t \<le> iso_ts atm ! 0")
    case True
    have "nat (iso_n atm - 1) = 0"
    proof (rule ccontr)
      assume "nat (iso_n atm - 1) \<noteq> 0"
      then have "iso_ts atm ! 0 < iso_ts atm ! nat (iso_n atm - 1)"
        using mono [of 0 "nat (iso_n atm - 1)"] last by simp
      then show False using True ge by simp
    qed
    then show ?thesis using True by (simp add: balloon_pressure_def)
  next
    case False
    then show ?thesis using ge by (simp add: balloon_pressure_def)
  qed
  have c3: "balloon_pressure L atm ?t
        = LIN (iso_ts atm ! nat ?idx) (iso_ps atm ! nat ?idx)
            (iso_ts atm ! (nat ?idx + 1)) (iso_ps atm ! (nat ?idx + 1)) ?t
      \<and> nat ?idx + 1 < ?n \<and> iso_ts atm ! nat ?idx \<le> ?t \<and> ?t < iso_ts atm ! (nat ?idx + 1)"
    if btw: "iso_ts atm ! 0 < ?t" "?t < iso_ts atm ! nat (iso_n atm - 1)"
  proof -
    have l: "0 \<le> ?idx" "?idx + 1 < iso_n atm" "iso_ts atm ! nat ?idx \<le> ?t"
      "?t < iso_ts atm ! nat (?idx + 1)"
      using loc btw by simp_all
    have s: "nat (?idx + 1) = nat ?idx + 1"
      using l(1) by simp
    have "nat ?idx + 1 < ?n"
      using l(1,2) by simp
    then show ?thesis
      using btw l s by (simp add: balloon_pressure_def Let_def)
  qed
  have c4: "balloon_pressure L atm ?t = (iso_ps atm ! 0 + iso_ps atm ! 1) / 2"
    if two: "iso_n atm = 2" and mid: "?t = (iso_ts atm ! 0 + iso_ts atm ! 1) / 2"
  proof -
    have lt: "iso_ts atm ! 0 < iso_ts atm ! 1"
      using mono [of 0 1] two by simp
    have n: "nat (iso_n atm - 1) = 1"
      using two by simp
    have btw: "iso_ts atm ! 0 < ?t" "?t < iso_ts atm ! nat (iso_n atm - 1)"
      using lt mid n by simp_all
    have "nat ?idx + 1 < 2"
      using c3 [OF btw] two by simp
    then have "nat ?idx = 0" by simp
    then have "balloon_pressure L atm ?t
        = LIN (iso_ts atm ! 0) (iso_ps atm ! 0) (iso_ts atm ! 1) (iso_ps atm ! 1) ?t"
      using c3 [OF btw] by simp
    also have "\<dots> = LIN (iso_ts atm ! 0) (iso_ps atm ! 0) (iso_ts atm ! 1) (iso_ps atm ! 1)
        ((iso_ts atm ! 0 + iso_ts atm ! 1) / 2)"
      by (simp only: mid)
    also have "\<dots> = (iso_ps atm ! 0 + iso_ps atm ! 1) / 2"
      using lt by (intro LIN_midpoint) simp
    finally show ?thesis .
  qed
  show ?thesis
    unfolding enf using c1 c2 c3 c4 by blast
qed

theorem balloon_series_enforced_witness:
  "p (module_isosurf lib_ex (ctl_ex\<lparr>isosurf := 4\<rparr>) met_ex met_ex atm_ex) ! 1 = 100
   \<and> p (module_isosurf lib_ex (ctl_ex\<lparr>isosurf := 4\<rparr>) met_ex met_ex atm_ex) ! 2 = 200
   \<and> p (module_isosurf lib_ex (ctl_ex\<lparr>isosurf := 4\<rparr>) met_ex met_ex
          (atm_ex\<lparr>time := [- 3, 20, 5, 9]\<rparr>)) ! 0 = 300"
  using balloon_series_enforced [of "ctl_ex\<lparr>isosurf := 4\<rparr>" 1 atm_ex lib_ex met_ex met_ex]
    balloon_series_enforced [of "ctl_ex\<lparr>isosurf := 4\<rparr>" 2 atm_ex lib_ex met_ex met_ex]
    balloon_series_enforced [of "ctl_ex\<lparr>isosurf := 4\<rparr>" 0 "atm_ex\<lparr>time := [- 3, 20, 5, 9]\<rparr>"
      lib_ex met_ex met_ex]
  by (simp add: atm_ex_def lib_ex_def)

section \<open>Diagnostics\<close>

lemma q_write_Inr:
  assumes "map length (q a) = sh" "slot_ok sh ip iq" "0 \<le> iq"
  shows "\<exists>a'. q_write iq ip x a = Inr a' \<and> map length (q a') = sh"
proof -
  have len: "length (q a) = length sh"
    using assms(1) by (metis length_map)
  have i: "nat iq < length (q a)"
    using assms(2,3) len by (simp add: slot_ok_def nat_less_iff)
  have r: "ip < length (q a ! nat iq)"
    using assms i by (auto simp: slot_ok_def)
  have "map length ((q a)[nat iq := (q a ! nat iq)[ip := x]]) = map length (q a)"
    using i by (simp add: map_update list_update_same_conv)
  then show ?thesis
    using i r assms(1,3) by (simp add: q_write_def)
qed

lemma q_read_Inr:
  assumes "map length (q a) = sh" "slot_ok sh ip iq" "0 \<le> iq"
  shows "q_read a iq ip = Inr (q a ! nat iq ! ip)"
proof -
  have len: "length (q a) = length sh"
    using assms(1) by (metis length_map)
  have i: "nat iq < length (q a)"
    using assms(2,3) len by (simp add: slot_ok_def nat_less_iff)
  have r: "ip < length (q a ! nat iq)"
    using assms i by (auto simp: slot_ok_def)
  show ?thesis
    using i r assms(3) by (simp add: q_read_def)
qed

lemma q_read_neg: "iq < 0 \<Longrightarrow> q_read a iq ip = Inl (Index_out_of_bounds iq)"
  by (simp add: q_read_def)

lemma q_set_req_Inr:
  assumes "map length (q a) = sh" "slot_ok sh ip (fst iqx)"
  shows "\<exists>a'. q_set_req ip iqx (Inr a) = Inr a' \<and> map length (q a') = sh"
proof (cases "0 \<le> fst iqx")
  case True
  then show ?thesis
    using q_write_Inr [OF assms True, of "snd iqx"] by (simp add: q_set_req_def err_bind_def)
next
  case False
  then show ?thesis
    using assms(1) by (simp add: q_set_req_def err_bind_def)
qed

lemma fold_q_set_req_Inr:
  assumes "\<forall>iqx\<in>set ws. slot_ok sh ip (fst iqx)" "map length (q a) = sh"
  shows "\<exists>a'. fold (q_set_req ip) ws (Inr a) = Inr a' \<and> map length (q a') = sh"
  using assms
proof (induction ws arbitrary: a)
  case Nil
  then show ?case by simp
next
  case (Cons iqx ws)
  obtain a1 where a1: "q_set_req ip iqx (Inr a) = Inr a1" "map length (q a1) = sh"
    using q_set_req_Inr [of a sh ip iqx] Cons.prems by auto
  show ?case
    using Cons.IH [of a1] Cons.prems(1) a1 by simp
qed

lemma meteo_tnat_Inr:
  assumes "map length (q a) = sh" "slot_ok sh ip (qnt_tnat ctl)"
  shows "\<exists>a'. meteo_tnat L ctl h2o ip a = Inr a' \<and> map length (q a') = sh"
proof (cases "0 \<le> qnt_tnat ctl")
  case True
  have w: "\<exists>a'. q_write (qnt_tnat ctl) ip x b = Inr a' \<and> map length (q a') = sh"
    if "map length (q b) = sh" for x b
    using q_write_Inr [OF that assms(2) True] .
  have one: "\<exists>a'. (if c then q_write (qnt_tnat ctl) ip x b else Inr b) = Inr a'
      \<and> map length (q a') = sh"
    if "map length (q b) = sh" for c x b
    using w [OF that] that by (cases c) simp_all
  have two: "\<exists>a'. err_bind (if c1 then q_write (qnt_tnat ctl) ip x1 a else Inr a)
          (\<lambda>a1. if c2 then q_write (qnt_tnat ctl) ip x2 a1 else Inr a1) = Inr a'
      \<and> map length (q a') = sh" for c1 c2 x1 x2
  proof -
    obtain a1 where a1: "(if c1 then q_write (qnt_tnat ctl) ip x1 a else Inr a) = Inr a1"
      "map length (q a1) = sh"
      using one [OF assms(1)] by blast
    show ?thesis
      using one [OF a1(2), of c2 x2] by (simp add: err_bind_def a1(1))
  qed
  show ?thesis
    using True two by (simp add: meteo_tnat_def Let_def)
next
  case False
  then show ?thesis
    using assms(1) by (simp add: meteo_tnat_def)
qed

lemma meteo_tsts_result:
  assumes sh: "map length (q a) = sh"
    and ok: "slot_ok sh ip (qnt_tice ctl)" "slot_ok sh ip (qnt_tnat ctl)"
      "slot_ok sh ip (qnt_tsts ctl)"
    and req: "0 \<le> qnt_tsts ctl"
  shows "(qnt_tice ctl < 0 \<longrightarrow> meteo_tsts ctl ip a = Inl (Index_out_of_bounds (qnt_tice ctl)))
    \<and> (0 \<le> qnt_tice ctl \<and> qnt_tnat ctl < 0
         \<longrightarrow> meteo_tsts ctl ip a = Inl (Index_out_of_bounds (qnt_tnat ctl)))
    \<and> (0 \<le> qnt_tice ctl \<and> 0 \<le> qnt_tnat ctl
         \<longrightarrow> (\<exists>a'. meteo_tsts ctl ip a = Inr a' \<and> map length (q a') = sh))"
proof -
  have c1: "meteo_tsts ctl ip a = Inl (Index_out_of_bounds (qnt_tice ctl))"
    if "qnt_tice ctl < 0"
    using that req by (simp add: meteo_tsts_def err_bind_def q_read_neg)
  have c2: "meteo_tsts ctl ip a = Inl (Index_out_of_bounds (qnt_tnat ctl))"
    if "0 \<le> qnt_tice ctl" "qnt_tnat ctl < 0"
    using that req q_read_Inr [OF sh ok(1) that(1)]
    by (simp add: meteo_tsts_def err_bind_def q_read_neg)
  have c3: "\<exists>a'. meteo_tsts ctl ip a = Inr a' \<and> map length (q a') = sh"
    if "0 \<le> qnt_tice ctl" "0 \<le> qnt_tnat ctl"
    using that req q_read_Inr [OF sh ok(1) that(1)] q_read_Inr [OF sh ok(2) that(2)]
      q_write_Inr [OF sh ok(3) req]
    by (simp add: meteo_tsts_def err_bind_def)
  show ?thesis
    using c1 c2 c3 by blast
qed

lemma meteo_ip_result:
  assumes sh: "map length (q a) = sh"
    and ok: "\<forall>i\<in>set (meteo_indices ctl). slot_ok sh ip i"
    and req: "0 \<le> qnt_tsts ctl"
  shows "(qnt_tice ctl < 0
          \<longrightarrow> meteo_ip L ctl met0 met1 ip a = Inl (Index_out_of_bounds (qnt_tice ctl)))
    \<and> (0 \<le> qnt_tice ctl \<and> qnt_tnat ctl < 0
         \<longrightarrow> meteo_ip L ctl met0 met1 ip a = Inl (Index_out_of_bounds (qnt_tnat ctl)))
    \<and> (0 \<le> qnt_tice ctl \<and> 0 \<le> qnt_tnat ctl
         \<longrightarrow> (\<exists>a'. meteo_ip L ctl met0 met1 ip a = Inr a' \<and> map length (q a') = sh))"
proof -
  define m where "m = intpol_met_time L met0 met1 (time a ! ip) (p a ! ip) (lon a ! ip)
    (lat a ! ip)"
  have "\<forall>iqx\<in>set (meteo_writes L ctl m (p a ! ip)). slot_ok sh ip (fst iqx)"
    using ok by (simp add: meteo_writes_def meteo_indices_def)
  then obtain a1 where a1: "fold (q_set_req ip) (meteo_writes L ctl m (p a ! ip)) (Inr a) = Inr a1"
    "map length (q a1) = sh"
    using fold_q_set_req_Inr [OF _ sh] by blast
  have oks: "slot_ok sh ip (qnt_tice ctl)" "slot_ok sh ip (qnt_tnat ctl)"
    "slot_ok sh ip (qnt_tsts ctl)"
    using ok by (simp_all add: meteo_indices_def)
  obtain a2 where a2: "meteo_tnat L ctl (iv_h2o m) ip a1 = Inr a2" "map length (q a2) = sh"
    using meteo_tnat_Inr [OF a1(2) oks(2)] by blast
  have "meteo_ip L ctl met0 met1 ip a = meteo_tsts ctl ip a2"
    by (simp add: meteo_ip_def Let_def m_def [symmetric] a1(1) a2(1) err_bind_def)
  then show ?thesis
    using meteo_tsts_result [OF a2(2) oks req] by simp
qed


lemma fold_err_bind_Inl: "fold (\<lambda>ip s. err_bind s (f ip)) js (Inl e) = Inl e"
  by (induction js) (simp_all add: err_bind_def)

lemma module_meteo_Inr:
  assumes ok: "\<forall>ip<n. \<forall>i\<in>set (meteo_indices ctl). slot_ok (map length (q atm)) ip i"
    and req: "0 \<le> qnt_tsts ctl" and both: "0 \<le> qnt_tice ctl" "0 \<le> qnt_tnat ctl"
  shows "\<exists>a. fold (\<lambda>ip s. err_bind s (meteo_ip L ctl met0 met1 ip)) [0..<n] (Inr atm) = Inr a
    \<and> map length (q a) = map length (q atm)"
  using ok
proof (induction n)
  case 0
  show ?case by simp
next
  case (Suc n)
  then obtain a where a: "fold (\<lambda>ip s. err_bind s (meteo_ip L ctl met0 met1 ip)) [0..<n] (Inr atm)
      = Inr a" "map length (q a) = map length (q atm)"
    by auto
  have "\<forall>i\<in>set (meteo_indices ctl). slot_ok (map length (q atm)) n i"
    using Suc.prems by simp
  then obtain a' where "meteo_ip L ctl met0 met1 n a = Inr a'"
    "map length (q a') = map length (q atm)"
    using meteo_ip_result [OF a(2) _ req, of n L met0 met1] both by blast
  moreover have "fold (\<lambda>ip s. err_bind s (meteo_ip L ctl met0 met1 ip)) [0..<Suc n] (Inr atm)
      = err_bind (Inr a) (meteo_ip L ctl met0 met1 n)"
    by (simp add: a(1))
  ultimately show ?case
    by (simp add: err_bind_def)
qed

text \<open>
  C8. When T_STS is requested (\<open>qnt_tsts \<ge> 0\<close>), \<open>module_meteo\<close> reads the slots
  \<open>qnt_tice\<close> and \<open>qnt_tnat\<close> of the quantity array without a check. With at least one
  particle, every index of the control parameters below the number of rows and every row
  holding the \<open>np\<close> particles, all accesses of the module are inside the array exactly
  when T_ice and T_NAT are requested too; otherwise the module reads the row at the
  negative index, the sentinel \<open>-1\<close> of a quantity that is not requested.
\<close>

theorem meteo_tsts_reads_tice_tnat:
  assumes req: "0 \<le> qnt_tsts ctl" and np: "0 < np atm"
    and idx: "\<forall>i\<in>set (meteo_indices ctl). i < int (length (q atm))"
    and rows: "\<forall>row\<in>set (q atm). nat (np atm) \<le> length row"
  shows "((\<exists>a. module_meteo L ctl met0 met1 atm = Inr a)
            \<longleftrightarrow> 0 \<le> qnt_tice ctl \<and> 0 \<le> qnt_tnat ctl)
    \<and> (qnt_tice ctl < 0
         \<longrightarrow> module_meteo L ctl met0 met1 atm = Inl (Index_out_of_bounds (qnt_tice ctl)))
    \<and> (0 \<le> qnt_tice ctl \<and> qnt_tnat ctl < 0
         \<longrightarrow> module_meteo L ctl met0 met1 atm = Inl (Index_out_of_bounds (qnt_tnat ctl)))"
proof -
  have ok: "\<forall>i\<in>set (meteo_indices ctl). slot_ok (map length (q atm)) ip i"
    if "ip < nat (np atm)" for ip
  proof
    fix i assume i: "i \<in> set (meteo_indices ctl)"
    have "ip < length (q atm ! nat i)" if "0 \<le> i"
    proof -
      have "nat i < length (q atm)"
        using idx i that by (simp add: nat_less_iff)
      then have "q atm ! nat i \<in> set (q atm)"
        by simp
      then show ?thesis
        using rows \<open>ip < nat (np atm)\<close> by fastforce
    qed
    then show "slot_ok (map length (q atm)) ip i"
      using idx i by (simp add: slot_ok_def nat_less_iff)
  qed
  have first: "[0..<nat (np atm)] = 0 # [1..<nat (np atm)]"
    using np by (simp add: upt_conv_Cons)
  have start: "module_meteo L ctl met0 met1 atm
      = fold (\<lambda>ip s. err_bind s (meteo_ip L ctl met0 met1 ip)) [1..<nat (np atm)]
          (meteo_ip L ctl met0 met1 0 atm)"
    by (simp add: module_meteo_def first err_bind_def)
  have zero: "0 < nat (np atm)"
    using np by simp
  have r: "(qnt_tice ctl < 0
          \<longrightarrow> meteo_ip L ctl met0 met1 0 atm = Inl (Index_out_of_bounds (qnt_tice ctl)))
    \<and> (0 \<le> qnt_tice ctl \<and> qnt_tnat ctl < 0
         \<longrightarrow> meteo_ip L ctl met0 met1 0 atm = Inl (Index_out_of_bounds (qnt_tnat ctl)))"
    using meteo_ip_result [OF refl ok [OF zero] req, of L met0 met1] by blast
  have f1: "module_meteo L ctl met0 met1 atm = Inl (Index_out_of_bounds (qnt_tice ctl))"
    if "qnt_tice ctl < 0"
    using r that by (simp add: start fold_err_bind_Inl)
  have f2: "module_meteo L ctl met0 met1 atm = Inl (Index_out_of_bounds (qnt_tnat ctl))"
    if "0 \<le> qnt_tice ctl" "qnt_tnat ctl < 0"
    using r that by (simp add: start fold_err_bind_Inl)
  have s: "\<exists>a. module_meteo L ctl met0 met1 atm = Inr a"
    if "0 \<le> qnt_tice ctl" "0 \<le> qnt_tnat ctl"
  proof -
    have "\<forall>ip<nat (np atm). \<forall>i\<in>set (meteo_indices ctl). slot_ok (map length (q atm)) ip i"
      using ok by blast
    from module_meteo_Inr [OF this req that, of L met0 met1] show ?thesis
      unfolding module_meteo_def by blast
  qed
  have "0 \<le> qnt_tice ctl \<and> 0 \<le> qnt_tnat ctl" if "module_meteo L ctl met0 met1 atm = Inr a" for a
  proof (rule ccontr)
    assume "\<not> (0 \<le> qnt_tice ctl \<and> 0 \<le> qnt_tnat ctl)"
    then consider "qnt_tice ctl < 0" | "0 \<le> qnt_tice ctl" "qnt_tnat ctl < 0"
      by linarith
    then show False
      using f1 f2 that by cases simp_all
  qed
  then show ?thesis
    using f1 f2 s by blast
qed

theorem meteo_tsts_reads_tice_tnat_witness:
  "(\<exists>a. module_meteo lib_ex (ctl_ex\<lparr>qnt_tice := 1, qnt_tnat := 2, qnt_tsts := 0\<rparr>)
          met_ex met_ex atm_ex = Inr a)
   \<and> module_meteo lib_ex (ctl_ex\<lparr>qnt_tsts := 0\<rparr>) met_ex met_ex atm_ex
       = Inl (Index_out_of_bounds (- 1))"
  using meteo_tsts_reads_tice_tnat
      [of "ctl_ex\<lparr>qnt_tice := 1, qnt_tnat := 2, qnt_tsts := 0\<rparr>" atm_ex lib_ex met_ex met_ex]
    meteo_tsts_reads_tice_tnat [of "ctl_ex\<lparr>qnt_tsts := 0\<rparr>" atm_ex lib_ex met_ex met_ex]
  by (simp add: ctl_ex_def atm_ex_def meteo_indices_def)

section \<open>Mesoscale diffusion\<close>

lemma meso_corr_defined:
  assumes "dti \<noteq> 0"
  shows "(meso_corr dti dtmet \<noteq> None) \<longleftrightarrow> \<bar>dti\<bar> \<le> dtmet"
proof (cases "dtmet = 0")
  case True
  then show ?thesis using assms by (simp add: meso_corr_def)
next
  case False
  define x where "x = \<bar>dti\<bar> / dtmet"
  have rad: "1 - (1 - 2 * x) * (1 - 2 * x) = 4 * (x * (1 - x))"
    by (simp add: algebra_simps)
  have "(meso_corr dti dtmet \<noteq> None) \<longleftrightarrow> \<not> 1 - (1 - 2 * x) * (1 - 2 * x) < 0"
    using False by (simp add: meso_corr_def Let_def x_def)
  also have "\<dots> \<longleftrightarrow> 0 \<le> x * (1 - x)"
    unfolding rad by auto
  also have "\<dots> \<longleftrightarrow> 0 \<le> x \<and> x \<le> 1"
    by (auto simp: zero_le_mult_iff)
  also have "\<dots> \<longleftrightarrow> \<bar>dti\<bar> \<le> dtmet"
  proof (cases "0 < dtmet")
    case True
    then show ?thesis by (simp add: x_def)
  next
    case neg: False
    then have "dtmet < 0" using False by simp
    moreover have "0 < \<bar>dti\<bar>" using assms by simp
    ultimately have "x < 0" by (simp add: x_def divide_pos_neg)
    then show ?thesis using \<open>dtmet < 0\<close> by simp
  qed
  finally show ?thesis .
qed

lemma meso_ip_real:
  "snd (meso_ip L ctl met0 met1 dt rs ip a)
     \<longleftrightarrow> (dt ! ip \<noteq> 0 \<longrightarrow> meso_corr (dt ! ip) (dt_met ctl) \<noteq> None)"
proof (cases "dt ! ip = 0")
  case True
  then show ?thesis by (simp add: meso_ip_def)
next
  case False
  show ?thesis
  proof (cases "meso_corr (dt ! ip) (dt_met ctl)")
    case None
    then show ?thesis using False by (simp add: meso_ip_def Let_def)
  next
    case (Some c)
    then show ?thesis using False by (cases c) (simp add: meso_ip_def Let_def)
  qed
qed

lemma meso_step_list:
  "snd (meso_step L ctl met0 met1 dt rs ip s)
     = (if dt ! ip \<noteq> 0 \<and> \<not> \<bar>dt ! ip\<bar> \<le> dt_met ctl then snd s @ [ip] else snd s)"
  using meso_ip_real [of L ctl met0 met1 dt rs ip "fst s"]
    meso_corr_defined [of "dt ! ip" "dt_met ctl"]
  by (auto simp: meso_step_def Let_def)

text \<open>The particles listed after the first \<open>n\<close> iterations of the loop.\<close>

lemma meso_fold_list:
  "set (snd (fold (meso_step L ctl met0 met1 dt rs) [0..<n] (atm, [])))
     = {ip. ip < n \<and> dt ! ip \<noteq> 0 \<and> \<not> \<bar>dt ! ip\<bar> \<le> dt_met ctl}"
proof (induction n)
  case 0
  show ?case by simp
next
  case (Suc n)
  define S where "S = fold (meso_step L ctl met0 met1 dt rs) [0..<n] (atm, [])"
  have step: "fold (meso_step L ctl met0 met1 dt rs) [0..<Suc n] (atm, [])
      = meso_step L ctl met0 met1 dt rs n S"
    by (simp add: S_def)
  have IH: "set (snd S) = {ip. ip < n \<and> dt ! ip \<noteq> 0 \<and> \<not> \<bar>dt ! ip\<bar> \<le> dt_met ctl}"
    using Suc by (simp add: S_def)
  show ?case
    unfolding step by (auto simp: meso_step_list IH less_Suc_eq)
qed

text \<open>
  C9. Inside the guard \<open>dt[ip] \<noteq> 0\<close> of the mesoscale module the pair \<open>r\<close>,
  \<open>r2 = sqrt(1 - r * r)\<close> with \<open>r = 1 - 2 * |dt[ip]| / dt_met\<close> consists of real numbers
  exactly when \<open>|dt[ip]| \<le> dt_met\<close>. The loop of the module meets no correlation that is
  not real exactly when every particle \<open>ip < np\<close> with \<open>dt[ip] \<noteq> 0\<close> satisfies this
  precondition; the particles it reports are the active particles that violate it.
\<close>

theorem meso_update_defined:
  "(\<forall>ip. dt ! ip \<noteq> 0 \<longrightarrow>
       ((meso_corr (dt ! ip) (dt_met ctl) \<noteq> None) \<longleftrightarrow> \<bar>dt ! ip\<bar> \<le> dt_met ctl))
   \<and> ((snd (module_diffusion_meso L ctl met0 met1 atm dt rs) = [])
        \<longleftrightarrow> (\<forall>ip<nat (np atm). dt ! ip \<noteq> 0 \<longrightarrow> \<bar>dt ! ip\<bar> \<le> dt_met ctl))
   \<and> set (snd (module_diffusion_meso L ctl met0 met1 atm dt rs))
        = {ip. ip < nat (np atm) \<and> dt ! ip \<noteq> 0 \<and> \<not> \<bar>dt ! ip\<bar> \<le> dt_met ctl}"
proof -
  have l: "set (snd (module_diffusion_meso L ctl met0 met1 atm dt rs))
      = {ip. ip < nat (np atm) \<and> dt ! ip \<noteq> 0 \<and> \<not> \<bar>dt ! ip\<bar> \<le> dt_met ctl}"
    unfolding module_diffusion_meso_def by (rule meso_fold_list)
  have "(snd (module_diffusion_meso L ctl met0 met1 atm dt rs) = [])
      \<longleftrightarrow> set (snd (module_diffusion_meso L ctl met0 met1 atm dt rs)) = {}"
    by simp
  also have "\<dots> \<longleftrightarrow> (\<forall>ip<nat (np atm). dt ! ip \<noteq> 0 \<longrightarrow> \<bar>dt ! ip\<bar> \<le> dt_met ctl)"
    unfolding l by blast
  finally show ?thesis
    using meso_corr_defined l by blast
qed

theorem meso_update_defined_witness:
  "snd (module_diffusion_meso lib_ex ctl_ex met_ex met_ex atm_ex [6, 0, 5, 0]
           [1, 1, 1, 1, 1, 1, 1, 1, 1, 1, 1, 1]) = []
   \<and> set (snd (module_diffusion_meso lib_ex ctl_ex met_ex met_ex atm_ex [6, 30, 5, 0]
           [1, 1, 1, 1, 1, 1, 1, 1, 1, 1, 1, 1])) = {1}
   \<and> meso_corr 30 (dt_met ctl_ex) = None
   \<and> meso_corr 6 (dt_met ctl_ex) \<noteq> None"
proof -
  have three: "ip < 3 \<longleftrightarrow> ip = 0 \<or> ip = 1 \<or> ip = 2" for ip :: nat
    by auto
  have a: "\<forall>ip<nat (np atm_ex). [6, 0, 5, 0 :: real] ! ip \<noteq> 0
      \<longrightarrow> \<bar>[6, 0, 5, 0 :: real] ! ip\<bar> \<le> dt_met ctl_ex"
    by (auto simp: atm_ex_def ctl_ex_def three)
  have b: "{ip. ip < nat (np atm_ex) \<and> [6, 30, 5, 0 :: real] ! ip \<noteq> 0
      \<and> \<not> \<bar>[6, 30, 5, 0 :: real] ! ip\<bar> \<le> dt_met ctl_ex} = {1}"
    by (auto simp: atm_ex_def ctl_ex_def three)
  note T1 = meso_update_defined [of "[6, 0, 5, 0]" ctl_ex lib_ex met_ex met_ex atm_ex
      "[1, 1, 1, 1, 1, 1, 1, 1, 1, 1, 1, 1]"]
  note T2 = meso_update_defined [of "[6, 30, 5, 0]" ctl_ex lib_ex met_ex met_ex atm_ex
      "[1, 1, 1, 1, 1, 1, 1, 1, 1, 1, 1, 1]"]
  have "snd (module_diffusion_meso lib_ex ctl_ex met_ex met_ex atm_ex [6, 0, 5, 0]
           [1, 1, 1, 1, 1, 1, 1, 1, 1, 1, 1, 1]) = []"
    using T1 a by blast
  moreover have "set (snd (module_diffusion_meso lib_ex ctl_ex met_ex met_ex atm_ex [6, 30, 5, 0]
           [1, 1, 1, 1, 1, 1, 1, 1, 1, 1, 1, 1])) = {1}"
    using T2 [THEN conjunct2, THEN conjunct2] b by simp
  moreover have "meso_corr 30 (dt_met ctl_ex) = None"
  proof (cases "meso_corr 30 (dt_met ctl_ex)")
    case None
    then show ?thesis .
  next
    case (Some c)
    then show ?thesis
      using T2 [THEN conjunct1, rule_format, of 1] by (simp add: ctl_ex_def)
  qed
  moreover have "meso_corr 6 (dt_met ctl_ex) \<noteq> None"
    using T2 [THEN conjunct1, rule_format, of 0] by (auto simp: ctl_ex_def)
  ultimately show ?thesis
    by blast
qed

section \<open>Particles with a zero time step\<close>

lemma same_particle_refl: "same_particle ip a a"
  by (simp add: same_particle_def)

lemma same_particle_trans:
  "same_particle ip a b \<Longrightarrow> same_particle ip b c \<Longrightarrow> same_particle ip a c"
  by (simp add: same_particle_def)

lemma fold_same_particle:
  assumes "\<And>j a. same_particle ip a (f j a)"
  shows "same_particle ip a (fold f js a)"
proof (induction js arbitrary: a)
  case Nil
  show ?case by (simp add: same_particle_refl)
next
  case (Cons j js)
  show ?case
    using same_particle_trans [OF assms [of a j] Cons [of "f j a"]] by simp
qed

lemma column_update_other:
  assumes "j \<noteq> ip"
  shows "map (\<lambda>row. row ! ip) (xss[i := (xss ! i)[j := x]]) = map (\<lambda>row. row ! ip) xss"
proof (cases "i < length xss")
  case True
  then show ?thesis
    using assms by (simp add: map_update list_update_same_conv)
next
  case False
  then show ?thesis by (simp add: list_update_beyond)
qed

lemma advection_ip_same:
  assumes "dt ! ip = 0"
  shows "same_particle ip a (advection_ip L met0 met1 dt j a)"
proof (cases "j = ip")
  case True
  then show ?thesis using assms by (simp add: advection_ip_def same_particle_refl)
next
  case False
  then show ?thesis by (simp add: advection_ip_def same_particle_def Let_def)
qed

lemma decay_ip_same:
  assumes "dt ! ip = 0"
  shows "same_particle ip a (decay_ip L ctl dt j a)"
proof (cases "j = ip")
  case True
  then show ?thesis using assms by (simp add: decay_ip_def same_particle_refl)
next
  case False
  then show ?thesis
    by (simp add: decay_ip_def same_particle_def Let_def column_update_other)
qed

lemma turb_ip_same:
  assumes "dt ! ip = 0"
  shows "same_particle ip a (turb_ip L ctl dt rs j a)"
proof (cases "j = ip")
  case True
  then show ?thesis using assms by (simp add: turb_ip_def same_particle_refl)
next
  case False
  then show ?thesis by (simp add: turb_ip_def same_particle_def Let_def)
qed

lemma sedi_ip_same:
  assumes "dt ! ip = 0"
  shows "same_particle ip a (sedi_ip L ctl met0 met1 dt j a)"
proof (cases "j = ip")
  case True
  then show ?thesis using assms by (simp add: sedi_ip_def same_particle_refl)
next
  case False
  then show ?thesis by (simp add: sedi_ip_def same_particle_def Let_def)
qed

lemma position_ip_same:
  assumes "dt ! ip = 0"
  shows "same_particle ip a (position_ip L met0 met1 dt j a)"
proof (cases "j = ip")
  case True
  then show ?thesis using assms by (simp add: position_ip_def same_particle_refl)
next
  case False
  then show ?thesis by (simp add: position_ip_def same_particle_def Let_def)
qed

lemma meso_cache_same: "same_particle ip a (meso_cache L met0 met1 ix iy iz a)"
  by (simp add: meso_cache_def same_particle_def)

lemma meso_horiz_same: "j \<noteq> ip \<Longrightarrow> same_particle ip a (meso_horiz L ctl dt rs j cell r r2 a)"
  by (simp add: meso_horiz_def same_particle_def Let_def)

lemma meso_vert_same: "j \<noteq> ip \<Longrightarrow> same_particle ip a (meso_vert ctl dt rs j cell r r2 a)"
  by (simp add: meso_vert_def same_particle_def Let_def)

lemma meso_ip_same:
  assumes "dt ! ip = 0"
  shows "same_particle ip a (fst (meso_ip L ctl met0 met1 dt rs j a))"
proof (cases "j = ip")
  case True
  then show ?thesis using assms by (simp add: meso_ip_def same_particle_refl)
next
  case False
  show ?thesis
  proof (cases "dt ! j = 0")
    case True
    then show ?thesis by (simp add: meso_ip_def same_particle_refl)
  next
    case nz: False
    define ix where "ix = locate_reg L (met_t.lon met0) (met_t.nx met0) (lon a ! j)"
    define iy where "iy = locate_reg L (met_t.lat met0) (met_t.ny met0) (lat a ! j)"
    define iz where "iz = locate_irr L (met_t.p met0) (met_t.np met0) (p a ! j)"
    define a0 where "a0 = meso_cache L met0 met1 ix iy iz a"
    have s0: "same_particle ip a a0"
      by (simp add: a0_def meso_cache_same)
    show ?thesis
    proof (cases "meso_corr (dt ! j) (dt_met ctl)")
      case None
      then have "fst (meso_ip L ctl met0 met1 dt rs j a) = a0"
        using nz by (simp add: meso_ip_def Let_def ix_def iy_def iz_def a0_def)
      then show ?thesis using s0 by simp
    next
      case (Some c)
      obtain r r2 where c: "c = (r, r2)"
        by (cases c)
      define a1 where "a1 = (if turb_mesox ctl > 0
        then meso_horiz L ctl dt rs j (ix, iy, iz) r r2 a0 else a0)"
      define b where "b = (if turb_mesoz ctl > 0
        then meso_vert ctl dt rs j (ix, iy, iz) r r2 a1 else a1)"
      have res: "fst (meso_ip L ctl met0 met1 dt rs j a) = b"
        using nz Some c
        by (simp add: meso_ip_def Let_def ix_def iy_def iz_def a0_def a1_def b_def)
      have s1: "same_particle ip a0 a1"
        using False by (simp add: a1_def meso_horiz_same same_particle_refl)
      have s2: "same_particle ip a1 b"
        using False by (simp add: b_def meso_vert_same same_particle_refl)
      show ?thesis
        unfolding res using same_particle_trans [OF same_particle_trans [OF s0 s1] s2] .
    qed
  qed
qed

lemma fold_meso_same:
  assumes "dt ! ip = 0"
  shows "same_particle ip (fst s) (fst (fold (meso_step L ctl met0 met1 dt rs) js s))"
proof (induction js arbitrary: s)
  case Nil
  show ?case by (simp add: same_particle_refl)
next
  case (Cons j js)
  have "same_particle ip (fst s) (fst (meso_step L ctl met0 met1 dt rs j s))"
    using meso_ip_same [OF assms, of "fst s" L ctl met0 met1 rs j]
    by (simp add: meso_step_def Let_def)
  then show ?case
    using same_particle_trans [OF _ Cons [of "meso_step L ctl met0 met1 dt rs j s"]] by simp
qed

text \<open>
  C2. A particle with \<open>dt[ip] = 0\<close> keeps every state field (time, longitude,
  latitude, pressure, fluctuation components, quantities) through advection, turbulent
  diffusion, mesoscale diffusion, sedimentation, the position check and the decay,
  whatever the time steps of the other particles are. In the mesoscale module it is
  also not among the particles whose correlation is not real. \<open>module_isosurf\<close> and
  \<open>module_meteo\<close> do not take the array \<open>dt\<close> at all.
\<close>

theorem inactive_particle_unchanged:
  assumes "dt ! ip = 0"
  shows "same_particle ip atm (module_advection L met0 met1 atm dt)
    \<and> same_particle ip atm (module_diffusion_turb L ctl atm dt rs)
    \<and> same_particle ip atm (fst (module_diffusion_meso L ctl met0 met1 atm dt rs))
    \<and> ip \<notin> set (snd (module_diffusion_meso L ctl met0 met1 atm dt rs))
    \<and> same_particle ip atm (module_sedi L ctl met0 met1 atm dt)
    \<and> same_particle ip atm (module_position L met0 met1 atm dt)
    \<and> same_particle ip atm (module_decay L ctl atm dt)"
proof -
  have "same_particle ip atm (module_advection L met0 met1 atm dt)"
    unfolding module_advection_def
    by (rule fold_same_particle) (rule advection_ip_same [OF assms])
  moreover have "same_particle ip atm (module_diffusion_turb L ctl atm dt rs)"
    unfolding module_diffusion_turb_def
    by (rule fold_same_particle) (rule turb_ip_same [OF assms])
  moreover have "same_particle ip atm (fst (module_diffusion_meso L ctl met0 met1 atm dt rs))"
    unfolding module_diffusion_meso_def
    using fold_meso_same [OF assms, of "(atm, [])" L ctl met0 met1 rs] by simp
  moreover have "ip \<notin> set (snd (module_diffusion_meso L ctl met0 met1 atm dt rs))"
    unfolding module_diffusion_meso_def meso_fold_list using assms by simp
  moreover have "same_particle ip atm (module_sedi L ctl met0 met1 atm dt)"
    unfolding module_sedi_def
    by (rule fold_same_particle) (rule sedi_ip_same [OF assms])
  moreover have "same_particle ip atm (module_position L met0 met1 atm dt)"
    unfolding module_position_def
    by (rule fold_same_particle) (rule position_ip_same [OF assms])
  moreover have "same_particle ip atm (module_decay L ctl atm dt)"
    unfolding module_decay_def
    by (rule fold_same_particle) (rule decay_ip_same [OF assms])
  ultimately show ?thesis
    by blast
qed

text \<open>
  The sample ensemble with the time steps \<open>[30, 0, 5, 0]\<close>: particle \<open>0\<close> exceeds
  \<open>dt_met = 20\<close>, particle \<open>1\<close> is inactive and keeps its state in every module.
\<close>

theorem inactive_particle_unchanged_witness:
  "same_particle 1 atm_ex (module_advection lib_ex met_ex met_ex atm_ex [30, 0, 5, 0])
   \<and> same_particle 1 atm_ex (module_diffusion_turb lib_ex ctl_ex atm_ex [30, 0, 5, 0]
         [1, 1, 1, 1, 1, 1, 1, 1, 1, 1, 1, 1])
   \<and> same_particle 1 atm_ex (fst (module_diffusion_meso lib_ex ctl_ex met_ex met_ex atm_ex
         [30, 0, 5, 0] [1, 1, 1, 1, 1, 1, 1, 1, 1, 1, 1, 1]))
   \<and> 1 \<notin> set (snd (module_diffusion_meso lib_ex ctl_ex met_ex met_ex atm_ex
         [30, 0, 5, 0] [1, 1, 1, 1, 1, 1, 1, 1, 1, 1, 1, 1]))
   \<and> same_particle 1 atm_ex (module_sedi lib_ex ctl_ex met_ex met_ex atm_ex [30, 0, 5, 0])
   \<and> same_particle 1 atm_ex (module_position lib_ex met_ex met_ex atm_ex [30, 0, 5, 0])
   \<and> same_particle 1 atm_ex (module_decay lib_ex ctl_ex atm_ex [30, 0, 5, 0])
   \<and> time (fst (module_diffusion_meso lib_ex ctl_ex met_ex met_ex atm_ex
         [30, 0, 5, 0] [1, 1, 1, 1, 1, 1, 1, 1, 1, 1, 1, 1])) ! 1 = 20
   \<and> p (fst (module_diffusion_meso lib_ex ctl_ex met_ex met_ex atm_ex
         [30, 0, 5, 0] [1, 1, 1, 1, 1, 1, 1, 1, 1, 1, 1, 1])) ! 1 = 700"
proof -
  have h: "[30, 0, 5, 0 :: real] ! 1 = 0"
    by simp
  note T = inactive_particle_unchanged [where dt = "[30, 0, 5, 0]" and ip = 1 and atm = atm_ex
      and L = lib_ex and ctl = ctl_ex and ?met0.0 = met_ex and ?met1.0 = met_ex
      and rs = "[1, 1, 1, 1, 1, 1, 1, 1, 1, 1, 1, 1]", OF h]
  have "time (fst (module_diffusion_meso lib_ex ctl_ex met_ex met_ex atm_ex
         [30, 0, 5, 0] [1, 1, 1, 1, 1, 1, 1, 1, 1, 1, 1, 1])) ! 1 = 20"
    and "p (fst (module_diffusion_meso lib_ex ctl_ex met_ex met_ex atm_ex
         [30, 0, 5, 0] [1, 1, 1, 1, 1, 1, 1, 1, 1, 1, 1, 1])) ! 1 = 700"
    using T by (simp_all add: same_particle_def atm_ex_def)
  then show ?thesis
    using T by blast
qed

end
